theory Spec2Isabelle
  imports
    Main
    "HOL-Library.Char_ord"
    "HOL-Library.List_Lexorder"
    "HOL-Library.Product_Lexorder"
    "HOL-Library.Option_ord"
    "HOL-Library.AList"
    "HOL-Library.Sublist"
begin

section \<open>The JavaScript runtime, as far as the code relies on it\<close>

text \<open>
  JavaScript values are an abstract type \<open>'v\<close>. What the code does with them is handed in
  as a record of functions: \<open>JSON.parse\<close> (\<open>None\<close> when it throws a SyntaxError),
  \<open>JSON.stringify\<close> (\<open>None\<close> when it returns undefined or throws) and the reading of a
  property followed by a truthiness test, as in \<open>response.session_id && ...\<close>: it throws
  a TypeError on null and undefined, is falsy when the property is missing, null, empty
  or zero, and yields the value otherwise. For the command line the adapter builds there
  are also: the text of a value that is a string (only a string has the method
  \<open>replace\<close>), the elements of a value that can be iterated (\<open>[...x]\<close> and \<open>for ... of\<close>
  throw a TypeError on any other), and the comparison \<open>x > 0\<close>.
\<close>

datatype 'v access = Throws | Falsy | Truthy 'v

record 'v runtime =
  JSON_parse :: "string \<Rightarrow> 'v option"
  JSON_stringify :: "'v \<Rightarrow> string option"
  get_prop :: "'v \<Rightarrow> string \<Rightarrow> 'v access"
  as_string :: "'v \<Rightarrow> string option"
  spread :: "'v \<Rightarrow> 'v list option"
  gt_zero :: "'v \<Rightarrow> bool"

datatype error = StorageError | SyntaxError | TypeError | ProcessError string

text \<open>
  \<open>error.message\<close>. An error of the process adapter carries its message; for the other
  errors the texts stand for what the driver and the runtime say, and nothing below
  depends on them.
\<close>

fun message :: "error \<Rightarrow> string" where
  "message (ProcessError m) = m"
| "message StorageError = ''storage error''"
| "message SyntaxError = ''Unexpected token''"
| "message TypeError = ''Cannot read properties''"

section \<open>The durable job store (jobDb in server/database/db.js)\<close>

text \<open>
  The table \<open>jobs\<close> of init.sql. A row is a record; the column \<open>id\<close> is called
  \<open>job_id\<close> here. The column \<open>options\<close> holds JSON text in the table and the parsed value
  in the objects the store hands out, so the record is polymorphic in it. \<open>status\<close> is
  TEXT without a CHECK constraint, hence a string. Timestamps are integers (milliseconds
  since the epoch; the text forms the code stores order the same way); a NULL column is
  \<open>None\<close>.
\<close>

type_synonym timestamp = int

record 'o job =
  job_id :: nat
  project_name :: string
  session_id :: "string option"
  command :: string
  options :: 'o
  status :: string
  priority :: int
  created_at :: timestamp
  started_at :: "timestamp option"
  completed_at :: "timestamp option"
  error_message :: "string option"
  user_id :: "nat option"

type_synonym row = "string job"

text \<open>
  The database handle: the rows of the table in rowid order, the AUTOINCREMENT counter,
  and whether statements can run at all. \<open>is_open = False\<close> stands for every condition
  under which \<open>db.prepare\<close> or \<open>stmt.run\<close> raises (closed handle, I/O error, lock).
\<close>

record database =
  jobs :: "row list"
  last_rowid :: nat
  is_open :: bool

text \<open>\<open>{...row, options: JSON.parse(row.options)}\<close>\<close>

definition parse_row :: "'v runtime \<Rightarrow> row \<Rightarrow> error + 'v job" where
  "parse_row rt r =
     (case JSON_parse rt (options r) of
        None \<Rightarrow> Inl SyntaxError
      | Some v \<Rightarrow> Inr \<lparr> job_id = job_id r, project_name = project_name r,
                       session_id = session_id r, command = command r, options = v,
                       status = status r, priority = priority r,
                       created_at = created_at r, started_at = started_at r,
                       completed_at = completed_at r, error_message = error_message r,
                       user_id = user_id r \<rparr>)"

text \<open>\<open>rows.map(row => ...)\<close>: the first row that does not parse raises.\<close>

fun parse_rows :: "'v runtime \<Rightarrow> row list \<Rightarrow> error + 'v job list" where
  "parse_rows rt [] = Inr []"
| "parse_rows rt (r # rs) =
     (case parse_row rt r of
        Inl e \<Rightarrow> Inl e
      | Inr j \<Rightarrow> (case parse_rows rt rs of Inl e \<Rightarrow> Inl e | Inr js \<Rightarrow> Inr (j # js)))"

subsection \<open>addJob\<close>

text \<open>
  INSERT with the column defaults of init.sql: status 'pending', started_at,
  completed_at and error_message NULL, created_at the clock. When \<open>JSON.stringify\<close>
  returns undefined the driver refuses to bind it.
\<close>

definition new_row ::
  "timestamp \<Rightarrow> string \<Rightarrow> string option \<Rightarrow> string \<Rightarrow> string \<Rightarrow> nat option \<Rightarrow> int \<Rightarrow> nat \<Rightarrow> row" where
  "new_row now project sessionId cmd text userId prio i =
     \<lparr> job_id = i, project_name = project, session_id = sessionId, command = cmd,
       options = text, status = ''pending'', priority = prio, created_at = now,
       started_at = None, completed_at = None, error_message = None, user_id = userId \<rparr>"

definition jobDb_addJob ::
  "'v runtime \<Rightarrow> timestamp \<Rightarrow> string \<Rightarrow> string option \<Rightarrow> string \<Rightarrow> 'v \<Rightarrow>
     nat option \<Rightarrow> int \<Rightarrow> database \<Rightarrow> error + (nat \<times> database)" where
  "jobDb_addJob rt now project sessionId cmd opts userId prio db =
     (if \<not> is_open db then Inl StorageError
      else case JSON_stringify rt opts of
        None \<Rightarrow> Inl TypeError
      | Some text \<Rightarrow>
          let new_id = Suc (last_rowid db)
          in Inr (new_id,
                  db\<lparr> jobs := jobs db @ [new_row now project sessionId cmd text userId prio new_id],
                      last_rowid := new_id \<rparr>))"

subsection \<open>getNextJobForProject\<close>

text \<open>The first SELECT: session ids of the project's running jobs with a session.\<close>

definition runningSessions :: "string \<Rightarrow> row list \<Rightarrow> string list" where
  "runningSessions project rs =
     List.map_filter session_id
       (filter (\<lambda>j1. project_name j1 = project \<and> status j1 = ''running''
                      \<and> session_id j1 \<noteq> None) rs)"

text \<open>The WHERE clause of the second SELECT, in its two forms.\<close>

definition next_where :: "string \<Rightarrow> string list \<Rightarrow> row \<Rightarrow> bool" where
  "next_where project running r =
     (if length running > 0 then
        project_name r = project
        \<and> (status r = ''pending'' \<or> status r = ''failed'')
        \<and> (case session_id r of None \<Rightarrow> True | Some s \<Rightarrow> s \<notin> set running)
      else
        project_name r = project
        \<and> (status r = ''pending'' \<or> status r = ''failed''))"

text \<open>
  ORDER BY CASE WHEN status = 'pending' THEN 0 ELSE 1 END, priority DESC, created_at ASC:
  the sort key, compared lexicographically. Rows with equal keys come in table order.
\<close>

definition next_order :: "row \<Rightarrow> nat \<times> int \<times> timestamp" where
  "next_order r = (if status r = ''pending'' then 0 else 1, - priority r, created_at r)"

text \<open>LIMIT 1 with \<open>.get\<close>: the first row of the result, or undefined.\<close>

definition limit1 :: "'a list \<Rightarrow> 'a option" where
  "limit1 xs = (case xs of [] \<Rightarrow> None | x # _ \<Rightarrow> Some x)"

definition select_next :: "string \<Rightarrow> row list \<Rightarrow> row option" where
  "select_next project rs =
     limit1 (sort_key next_order
               (filter (next_where project (runningSessions project rs)) rs))"

definition getNextJobForProject ::
  "'v runtime \<Rightarrow> string \<Rightarrow> database \<Rightarrow> error + 'v job option" where
  "getNextJobForProject rt project db =
     (if \<not> is_open db then Inl StorageError
      else case select_next project (jobs db) of
        None \<Rightarrow> Inr None
      | Some r \<Rightarrow> (case parse_row rt r of Inl e \<Rightarrow> Inl e | Inr j \<Rightarrow> Inr (Some j)))"

subsection \<open>updateJobStatus\<close>

text \<open>
  The SET list is built as the source builds it: status always; started_at when the
  status is 'running', else completed_at when it is 'completed' or 'failed';
  error_message when the argument is truthy (neither null nor the empty string).
\<close>

definition set_status :: "timestamp \<Rightarrow> string \<Rightarrow> string option \<Rightarrow> row \<Rightarrow> row" where
  "set_status now st errorMessage r =
     (let r1 = r\<lparr> status := st \<rparr>;
          r2 = (if st = ''running'' then r1\<lparr> started_at := Some now \<rparr>
                else if st = ''completed'' \<or> st = ''failed''
                     then r1\<lparr> completed_at := Some now \<rparr>
                else r1)
      in case errorMessage of
           None \<Rightarrow> r2
         | Some m \<Rightarrow> if m \<noteq> [] then r2\<lparr> error_message := Some m \<rparr> else r2)"

definition updateJobStatus ::
  "timestamp \<Rightarrow> nat \<Rightarrow> string \<Rightarrow> string option \<Rightarrow> database \<Rightarrow> error + database" where
  "updateJobStatus now jobId st errorMessage db =
     (if \<not> is_open db then Inl StorageError
      else Inr (db\<lparr> jobs := map (\<lambda>r. if job_id r = jobId
                                       then set_status now st errorMessage r else r)
                                (jobs db) \<rparr>))"

subsection \<open>getActiveJobs and getJobsForProject\<close>

text \<open>ORDER BY project_name, priority DESC, created_at ASC.\<close>

definition active_order :: "row \<Rightarrow> string \<times> int \<times> timestamp" where
  "active_order r = (project_name r, - priority r, created_at r)"

definition getActiveJobs :: "'v runtime \<Rightarrow> database \<Rightarrow> error + 'v job list" where
  "getActiveJobs rt db =
     (if \<not> is_open db then Inl StorageError
      else parse_rows rt
             (sort_key active_order
                (filter (\<lambda>r. status r = ''pending'' \<or> status r = ''running'') (jobs db))))"

text \<open>ORDER BY created_at DESC LIMIT ?\<close>

definition getJobsForProject ::
  "'v runtime \<Rightarrow> string \<Rightarrow> nat \<Rightarrow> database \<Rightarrow> error + 'v job list" where
  "getJobsForProject rt project limit db =
     (if \<not> is_open db then Inl StorageError
      else parse_rows rt
             (take limit
                (rev (sort_key created_at
                        (filter (\<lambda>r. project_name r = project) (jobs db))))))"

subsection \<open>cleanupOldJobs\<close>

definition finished :: "row \<Rightarrow> bool" where
  "finished r \<longleftrightarrow> status r = ''completed'' \<or> status r = ''failed''"

text \<open>
  The subquery: ids of the project's finished jobs, ORDER BY completed_at DESC LIMIT 100
  (NULL sorts last in descending order).
\<close>

definition newest_ids :: "string \<Rightarrow> row list \<Rightarrow> nat list" where
  "newest_ids project rs =
     map job_id
       (take 100
          (rev (sort_key completed_at
                  (filter (\<lambda>r. project_name r = project \<and> finished r) rs))))"

text \<open>The DELETE statement for one project.\<close>

definition delete_old :: "string \<Rightarrow> row list \<Rightarrow> row list" where
  "delete_old project rs =
     filter (\<lambda>r. \<not> (project_name r = project \<and> finished r
                      \<and> job_id r \<notin> set (newest_ids project rs))) rs"

text \<open>
  \<open>if (projectName)\<close> is a truthiness test: null, undefined and the empty string take the
  branch over every project (SELECT DISTINCT project_name).
\<close>

definition cleanupOldJobs :: "string option \<Rightarrow> database \<Rightarrow> error + database" where
  "cleanupOldJobs project db =
     (if \<not> is_open db then Inl StorageError
      else case project of
        Some p \<Rightarrow>
          if p \<noteq> [] then Inr (db\<lparr> jobs := delete_old p (jobs db) \<rparr>)
          else Inr (db\<lparr> jobs := fold delete_old (remdups (map project_name (jobs db)))
                                      (jobs db) \<rparr>)
      | None \<Rightarrow> Inr (db\<lparr> jobs := fold delete_old (remdups (map project_name (jobs db)))
                                    (jobs db) \<rparr>))"

section \<open>The process adapter (spawnClaude in server/claude-cli.js)\<close>

text \<open>
  The child process is its sequence of events as the handlers of spawnClaude see them:
  a chunk on stdout, a chunk on stderr, \<open>close\<close> with the exit code (null when a signal
  ended it) and \<open>error\<close> when the process could not be started or signalled. What the
  handlers send to the socket is a message; the model keeps the message itself where
  the code sends its JSON text. The registry of live processes has no part in what is
  sent or in how the promise settles, and is left out.
\<close>

datatype proc_event =
    Stdout string
  | Stderr string
  | Close "int option"
  | SpawnError string

datatype 'v ws_message =
    SessionCreated 'v
  | ClaudeResponse 'v
  | ClaudeOutput string
  | ClaudeError string
  | ClaudeComplete "int option" bool

datatype outcome = Resolved | Rejected error

record 'v spawn_state =
  capturedSessionId :: "'v option"
  sessionCreatedSent :: bool
  sent :: "'v ws_message list"
  settled :: "outcome option"

definition ws_send :: "'v ws_message \<Rightarrow> 'v spawn_state \<Rightarrow> 'v spawn_state" where
  "ws_send m st = st\<lparr> sent := sent st @ [m] \<rparr>"

text \<open>A promise settles once: later calls of resolve and reject do nothing.\<close>

definition settle :: "outcome \<Rightarrow> 'v spawn_state \<Rightarrow> 'v spawn_state" where
  "settle out st = (case settled st of None \<Rightarrow> st\<lparr> settled := Some out \<rparr> | Some _ \<Rightarrow> st)"

subsection \<open>Strings\<close>

text \<open>\<open>rawOutput.split('\n')\<close>: the pieces between newlines; there is always one.\<close>

fun split_lines :: "string \<Rightarrow> string list" where
  "split_lines [] = [[]]"
| "split_lines (c # cs) =
     (if c = CHR 0x0A then [] # split_lines cs
      else (case split_lines cs of
              [] \<Rightarrow> [[c]]
            | l # ls \<Rightarrow> (c # l) # ls))"

text \<open>The white space \<open>trim\<close> removes, among the code units below 256.\<close>

definition js_whitespace :: "char \<Rightarrow> bool" where
  "js_whitespace c \<longleftrightarrow>
     c = CHR 0x09 \<or> c = CHR 0x0A \<or> c = CHR 0x0B \<or> c = CHR 0x0C \<or> c = CHR 0x0D
     \<or> c = CHR 0x20 \<or> c = CHR 0xA0"

definition trim :: "string \<Rightarrow> string" where
  "trim s = rev (dropWhile js_whitespace (rev (dropWhile js_whitespace s)))"

text \<open>Decimal digits, for the exit code in the message of a failed run.\<close>

function show_nat :: "nat \<Rightarrow> string" where
  "show_nat n =
     (if n < 10 then [''0123456789'' ! n]
      else show_nat (n div 10) @ [''0123456789'' ! (n mod 10)])"
  by pat_completeness auto
termination
  by (relation "measure id") auto

text \<open>The text of \<open>${code}\<close>.\<close>

definition show_code :: "int option \<Rightarrow> string" where
  "show_code code =
     (case code of
        None \<Rightarrow> ''null''
      | Some c \<Rightarrow> if c < 0 then CHR ''-'' # show_nat (nat (- c)) else show_nat (nat c))"

subsection \<open>The handlers\<close>

text \<open>
  The body of the loop over the lines of a chunk. A line that does not parse, and a line
  whose value is null (reading its \<open>session_id\<close> throws inside the same \<open>try\<close>), goes to
  the \<open>catch\<close> and is sent as raw text.
\<close>

definition handle_line :: "'v runtime \<Rightarrow> 'v option \<Rightarrow> string \<Rightarrow> 'v spawn_state \<Rightarrow> 'v spawn_state" where
  "handle_line rt sessionId line st =
     (case JSON_parse rt line of
        None \<Rightarrow> ws_send (ClaudeOutput line) st
      | Some response \<Rightarrow>
          (case get_prop rt response ''session_id'' of
             Throws \<Rightarrow> ws_send (ClaudeOutput line) st
           | Falsy \<Rightarrow> ws_send (ClaudeResponse response) st
           | Truthy sid \<Rightarrow>
               if capturedSessionId st = None then
                 let st1 = st\<lparr> capturedSessionId := Some sid \<rparr>;
                     st2 = (if sessionId = None \<and> \<not> sessionCreatedSent st1
                            then ws_send (SessionCreated sid)
                                   (st1\<lparr> sessionCreatedSent := True \<rparr>)
                            else st1)
                 in ws_send (ClaudeResponse response) st2
               else ws_send (ClaudeResponse response) st))"

text \<open>\<open>claudeProcess.stdout.on('data', ...)\<close>\<close>

definition on_stdout :: "'v runtime \<Rightarrow> 'v option \<Rightarrow> string \<Rightarrow> 'v spawn_state \<Rightarrow> 'v spawn_state" where
  "on_stdout rt sessionId rawOutput st =
     fold (handle_line rt sessionId)
          (filter (\<lambda>line. trim line \<noteq> []) (split_lines rawOutput)) st"

text \<open>\<open>claudeProcess.stderr.on('data', ...)\<close>\<close>

definition on_stderr :: "string \<Rightarrow> 'v spawn_state \<Rightarrow> 'v spawn_state" where
  "on_stderr txt st = ws_send (ClaudeError txt) st"

text \<open>\<open>claudeProcess.on('close', ...)\<close>\<close>

definition on_close :: "'v option \<Rightarrow> string \<Rightarrow> int option \<Rightarrow> 'v spawn_state \<Rightarrow> 'v spawn_state" where
  "on_close sessionId cmd code st =
     (let st1 = ws_send (ClaudeComplete code (sessionId = None \<and> cmd \<noteq> [])) st
      in if code = Some 0 then settle Resolved st1
         else settle (Rejected (ProcessError (''Claude CLI exited with code '' @ show_code code)))
                     st1)"

text \<open>\<open>claudeProcess.on('error', ...)\<close>\<close>

definition on_error :: "string \<Rightarrow> 'v spawn_state \<Rightarrow> 'v spawn_state" where
  "on_error msg st = settle (Rejected (ProcessError msg)) (ws_send (ClaudeError msg) st)"

fun on_event :: "'v runtime \<Rightarrow> 'v option \<Rightarrow> string \<Rightarrow> proc_event \<Rightarrow> 'v spawn_state \<Rightarrow> 'v spawn_state" where
  "on_event rt sessionId cmd (Stdout d) st = on_stdout rt sessionId d st"
| "on_event rt sessionId cmd (Stderr d) st = on_stderr d st"
| "on_event rt sessionId cmd (Close code) st = on_close sessionId cmd code st"
| "on_event rt sessionId cmd (SpawnError msg) st = on_error msg st"

subsection \<open>The command line\<close>

text \<open>
  An argument is a text of the code or a value taken out of the options. Everything
  from here to the call of \<open>spawn\<close> runs inside the executor of the promise, which is
  an async function: what throws there rejects the promise of that function, which
  nobody holds, and neither \<open>resolve\<close> nor \<open>reject\<close> is ever called. \<open>None\<close> stands for
  such a throw.
\<close>

datatype 'v arg = Lit string | Val 'v

text \<open>The reading of a property and the test of its value; a throw ends the executor.\<close>

definition with_prop :: "'v runtime \<Rightarrow> 'v \<Rightarrow> string \<Rightarrow> ('v option \<Rightarrow> 'a option) \<Rightarrow> 'a option" where
  "with_prop rt v name k =
     (case get_prop rt v name of
        Throws \<Rightarrow> None
      | Falsy \<Rightarrow> k None
      | Truthy x \<Rightarrow> k (Some x))"

definition plan_mode_tools :: "string list" where
  "plan_mode_tools = [''Read'', ''Task'', ''exit_plan_mode'', ''TodoRead'', ''TodoWrite'']"

text \<open>
  The flags of the tools settings. Without \<open>toolsSettings\<close> the defaults apply: no
  tools, permissions not skipped. \<open>[...(settings.allowedTools || [])]\<close> throws when the
  value is not iterable, and so does the loop over \<open>settings.disallowedTools\<close> when
  its \<open>length\<close> is positive.
\<close>

definition tool_args :: "'v runtime \<Rightarrow> 'v option \<Rightarrow> bool \<Rightarrow> 'v arg list option" where
  "tool_args rt toolsSettings plan =
     (let planTools = (\<lambda>allowed.
            if plan
            then map Lit (filter (\<lambda>tool. Some tool \<notin> set (map (as_string rt) allowed))
                                 plan_mode_tools)
            else []);
          allowedFlags = (\<lambda>tools. concat (map (\<lambda>tool. [Lit ''--allowedTools'', tool]) tools))
      in case toolsSettings of
        None \<Rightarrow> Some (allowedFlags (planTools []))
      | Some settings \<Rightarrow>
          with_prop rt settings ''skipPermissions'' (\<lambda>skipPermissions.
            if skipPermissions \<noteq> None \<and> \<not> plan
            then Some [Lit ''--dangerously-skip-permissions'']
            else
              with_prop rt settings ''allowedTools'' (\<lambda>a.
                case (case a of None \<Rightarrow> Some [] | Some xs \<Rightarrow> spread rt xs) of
                  None \<Rightarrow> None
                | Some allowed \<Rightarrow>
                    with_prop rt settings ''disallowedTools'' (\<lambda>d.
                      case (case d of
                              None \<Rightarrow> Some []
                            | Some ds \<Rightarrow>
                                with_prop rt ds ''length'' (\<lambda>l.
                                  if (case l of None \<Rightarrow> False | Some n \<Rightarrow> gt_zero rt n)
                                  then spread rt ds else Some [])) of
                        None \<Rightarrow> None
                      | Some disallowed \<Rightarrow>
                          Some (allowedFlags (map Val allowed @ planTools allowed)
                                @ concat (map (\<lambda>tool. [Lit ''--disallowedTools'', Val tool])
                                              disallowed))))))"

text \<open>\<open>arg.replace(...)\<close> in the logging of the command line: only a string has it.\<close>

definition arg_text :: "'v runtime \<Rightarrow> 'v arg \<Rightarrow> string option" where
  "arg_text rt a = (case a of Lit s \<Rightarrow> Some s | Val v \<Rightarrow> as_string rt v)"

text \<open>
  The destructuring of \<open>options\<close> (it throws when \<open>options\<close> is null) and the building of
  \<open>args\<close>, up to the logging before \<open>spawn\<close>: the session id given, if any, and the
  arguments. Left out are the image files and the MCP configuration file: what can
  throw there is inside a \<open>try\<close> with a \<open>catch\<close>, and all they do to \<open>args\<close> is to
  change or add texts.
\<close>

definition build_args :: "'v runtime \<Rightarrow> string \<Rightarrow> 'v \<Rightarrow> ('v option \<times> string list) option" where
  "build_args rt cmd opts =
     with_prop rt opts ''sessionId'' (\<lambda>sessionId.
     with_prop rt opts ''projectPath'' (\<lambda>projectPath.
     with_prop rt opts ''cwd'' (\<lambda>cwd.
     with_prop rt opts ''resume'' (\<lambda>resume.
     with_prop rt opts ''toolsSettings'' (\<lambda>toolsSettings.
     with_prop rt opts ''permissionMode'' (\<lambda>permissionMode.
     with_prop rt opts ''images'' (\<lambda>images.
       let plan = (case permissionMode of
                     None \<Rightarrow> False
                   | Some mode \<Rightarrow> as_string rt mode = Some ''plan'')
       in case tool_args rt toolsSettings plan of
            None \<Rightarrow> None
          | Some toolFlags \<Rightarrow>
              map_option (Pair sessionId)
                (those (map (arg_text rt)
                   ((if cmd \<noteq> [] \<and> trim cmd \<noteq> [] then [Lit ''--print'', Lit cmd] else [])
                    @ (case (resume, sessionId) of
                         (Some r, Some sid) \<Rightarrow> [Lit ''--resume'', Val sid]
                       | _ \<Rightarrow> [])
                    @ [Lit ''--output-format'', Lit ''stream-json'', Lit ''--verbose'']
                    @ (if resume = None then [Lit ''--model'', Lit ''sonnet''] else [])
                    @ (case permissionMode of
                         None \<Rightarrow> []
                       | Some mode \<Rightarrow>
                           if as_string rt mode \<noteq> Some ''default''
                           then [Lit ''--permission-mode'', Val mode] else [])
                    @ toolFlags))))))))))"

subsection \<open>spawnClaude\<close>

text \<open>
  What \<open>spawn\<close> does with the command line is the environment's: it throws at once (a
  working directory that is not a string, an argument with a null character in it), or
  it returns a child process, which then behaves as a sequence of events; a program
  that cannot be started is such a child, with an \<open>error\<close> event.
\<close>

datatype child_process = SpawnThrows | Runs "proc_event list"

text \<open>
  spawnClaude. When the executor throws, before \<open>spawn\<close> or in it, no handler is
  registered: the promise never settles and nothing is sent.
\<close>

definition spawnClaude :: "'v runtime \<Rightarrow> string \<Rightarrow> 'v \<Rightarrow> child_process \<Rightarrow> 'v spawn_state" where
  "spawnClaude rt cmd opts child =
     (case build_args rt cmd opts of
        None \<Rightarrow> \<lparr> capturedSessionId = None, sessionCreatedSent = False, sent = [],
                  settled = None \<rparr>
      | Some (sessionId, args) \<Rightarrow>
          (case child of
             SpawnThrows \<Rightarrow>
               \<lparr> capturedSessionId = sessionId, sessionCreatedSent = False, sent = [],
                 settled = None \<rparr>
           | Runs trace \<Rightarrow>
               fold (on_event rt sessionId cmd) trace
                    \<lparr> capturedSessionId = sessionId, sessionCreatedSent = False, sent = [],
                      settled = None \<rparr>))"
section \<open>The job worker (class JobWorker in server/projects.js)\<close>

record 'v worker =
  projectName :: string
  isRunning :: bool
  currentJobId :: "nat option"
  currentPromise :: "'v job option"

text \<open>
  \<open>currentPromise\<close> is the promise of \<open>executeJob(job)\<close>; the model keeps the job it
  executes, which the suspended call of processProjectJobs holds as well.
\<close>

datatype 'v event =
    JobQueued nat string "string option" string
  | JobStarted nat string "string option" string
  | JobOutput nat string "string option" "'v ws_message"
  | JobCompleted nat string "string option"
  | JobFailed nat string string
  | ProjectWorkerStopped string
  | JobsUpdate "'v job list" "string list"

text \<open>The callbacks handed to \<open>setImmediate\<close>.\<close>

datatype task = StartProjectWorker string | ProcessProjectJobs string

text \<open>
  The state of the singleton and of the store it works on. \<open>projectWorkers\<close> is the Map
  in insertion order; \<open>emitted\<close> the events emitted so far; \<open>immediates\<close> the callbacks
  scheduled and not yet run.
\<close>

record 'v jobWorker =
  db :: database
  projectWorkers :: "(string \<times> 'v worker) list"
  isShuttingDown :: bool
  maxConcurrentProjects :: nat
  emitted :: "'v event list"
  immediates :: "task list"

definition init :: "'v jobWorker" where
  "init = \<lparr> db = \<lparr> jobs = [], last_rowid = 0, is_open = True \<rparr>,
            projectWorkers = [], isShuttingDown = False, maxConcurrentProjects = 10,
            emitted = [], immediates = [] \<rparr>"

definition emit :: "'v event \<Rightarrow> 'v jobWorker \<Rightarrow> 'v jobWorker" where
  "emit e s = s\<lparr> emitted := emitted s @ [e] \<rparr>"

definition setImmediate :: "task \<Rightarrow> 'v jobWorker \<Rightarrow> 'v jobWorker" where
  "setImmediate t s = s\<lparr> immediates := immediates s @ [t] \<rparr>"

subsection \<open>recoverStuckJobs\<close>

text \<open>\<open>new Date(job.started_at)\<close>: null reads as the epoch.\<close>

definition date_of :: "timestamp option \<Rightarrow> timestamp" where
  "date_of t = (case t of None \<Rightarrow> 0 | Some x \<Rightarrow> x)"

definition stuck :: "timestamp \<Rightarrow> 'o job \<Rightarrow> bool" where
  "stuck now j \<longleftrightarrow> status j = ''running'' \<and> date_of (started_at j) < now - 30 * 60 * 1000"

text \<open>
  The loop over the stuck jobs; \<open>clock i\<close> is the clock when the row of job \<open>i\<close> is
  written. An update that raises ends the loop (the \<open>catch\<close> is around all of it).
\<close>

fun recover_loop :: "(nat \<Rightarrow> timestamp) \<Rightarrow> 'v job list \<Rightarrow> database \<Rightarrow> database" where
  "recover_loop clock [] d = d"
| "recover_loop clock (j # js) d =
     (case updateJobStatus (clock (job_id j)) (job_id j) ''failed''
             (Some ''Job timeout - marked for recovery'') d of
        Inl e \<Rightarrow> d
      | Inr d' \<Rightarrow> recover_loop clock js d')"

definition recoverStuckJobs ::
  "'v runtime \<Rightarrow> timestamp \<Rightarrow> (nat \<Rightarrow> timestamp) \<Rightarrow> 'v jobWorker \<Rightarrow> 'v jobWorker" where
  "recoverStuckJobs rt now clock s =
     (case getActiveJobs rt (db s) of
        Inl e \<Rightarrow> s
      | Inr active \<Rightarrow>
          let stuckJobs = filter (stuck now) active
          in if length stuckJobs > 0 then s\<lparr> db := recover_loop clock stuckJobs (db s) \<rparr>
             else s)"

subsection \<open>processProjectJobs\<close>

text \<open>The \<open>finally\<close> block: it writes to the worker object, in the Map or not.\<close>

definition reset_worker :: "string \<Rightarrow> 'v jobWorker \<Rightarrow> 'v jobWorker" where
  "reset_worker project s =
     (case map_of (projectWorkers s) project of
        None \<Rightarrow> s
      | Some w \<Rightarrow>
          s\<lparr> projectWorkers :=
               AList.update project
                 (w\<lparr> isRunning := False, currentJobId := None, currentPromise := None \<rparr>)
                 (projectWorkers s) \<rparr>)"

text \<open>What follows the \<open>try\<close> statement: the next round, unless shutting down.\<close>

definition continue_jobs :: "string \<Rightarrow> 'v jobWorker \<Rightarrow> 'v jobWorker" where
  "continue_jobs project s =
     (if \<not> isShuttingDown s then setImmediate (ProcessProjectJobs project) s else s)"

text \<open>
  The \<open>catch\<close> block with what follows it. The result is the state and the error the call
  ends with, if any: an update that raises inside the \<open>catch\<close> leaves through
  \<open>finally\<close> and rejects the promise of processProjectJobs. \<open>if (jobId)\<close> is a
  truthiness test: null and 0 skip the update.
\<close>

definition job_failed ::
  "timestamp \<Rightarrow> string \<Rightarrow> error \<Rightarrow> 'v jobWorker \<Rightarrow> 'v jobWorker \<times> error option" where
  "job_failed now project err s =
     (case (case map_of (projectWorkers s) project of
              None \<Rightarrow> None | Some w \<Rightarrow> currentJobId w) of
        None \<Rightarrow> (continue_jobs project (reset_worker project s), None)
      | Some jobId \<Rightarrow>
          if jobId = 0 then (continue_jobs project (reset_worker project s), None)
          else (case updateJobStatus now jobId ''failed'' (Some (message err)) (db s) of
                  Inl e \<Rightarrow> (reset_worker project s, Some e)
                | Inr d \<Rightarrow>
                    (continue_jobs project
                       (reset_worker project
                          (emit (JobFailed jobId project (message err)) (s\<lparr> db := d \<rparr>))),
                     None)))"

text \<open>
  processProjectJobs from its call to the \<open>await\<close> (or to its return): the claim of the
  next job and its marking as running, in one synchronous stretch.
\<close>

definition processProjectJobs ::
  "'v runtime \<Rightarrow> timestamp \<Rightarrow> string \<Rightarrow> 'v jobWorker \<Rightarrow> 'v jobWorker \<times> error option" where
  "processProjectJobs rt now project s =
     (case map_of (projectWorkers s) project of
        None \<Rightarrow> (s, None)
      | Some w \<Rightarrow>
          if isShuttingDown s then (s, None)
          else (case getNextJobForProject rt project (db s) of
                  Inl e \<Rightarrow> job_failed now project e s
                | Inr None \<Rightarrow>
                    (emit (ProjectWorkerStopped project)
                       (s\<lparr> projectWorkers := AList.delete project (projectWorkers s) \<rparr>),
                     None)
                | Inr (Some j) \<Rightarrow>
                    (case updateJobStatus now (job_id j) ''running'' None (db s) of
                       Inl e \<Rightarrow> job_failed now project e s
                     | Inr d \<Rightarrow>
                         (emit (JobStarted (job_id j) (project_name j) (session_id j)
                                  (command j))
                            (s\<lparr> db := d,
                               projectWorkers :=
                                 AList.update project
                                   (w\<lparr> isRunning := True, currentJobId := Some (job_id j),
                                      currentPromise := Some j \<rparr>)
                                   (projectWorkers s) \<rparr>),
                          None))))"

text \<open>
  processProjectJobs from the \<open>await\<close> on: the promise of executeJob has settled with
  \<open>out\<close>. Without a worker that awaits a job there is nothing to resume.
\<close>

definition processProjectJobs_resume ::
  "timestamp \<Rightarrow> string \<Rightarrow> outcome \<Rightarrow> 'v jobWorker \<Rightarrow> 'v jobWorker \<times> error option" where
  "processProjectJobs_resume now project out s =
     (case (case map_of (projectWorkers s) project of
              None \<Rightarrow> None | Some w \<Rightarrow> currentPromise w) of
        None \<Rightarrow> (s, None)
      | Some j \<Rightarrow>
          (case out of
             Rejected err \<Rightarrow> job_failed now project err s
           | Resolved \<Rightarrow>
               (case updateJobStatus now (job_id j) ''completed'' None (db s) of
                  Inl e \<Rightarrow> job_failed now project e s
                | Inr d \<Rightarrow>
                    (continue_jobs project
                       (reset_worker project
                          (emit (JobCompleted (job_id j) (project_name j) (session_id j))
                             (s\<lparr> db := d \<rparr>))),
                     None))))"

subsection \<open>executeJob\<close>

text \<open>
  The mock socket turns every message sent into a \<open>job-output\<close> event; the promise
  settles as the one of spawnClaude does.
\<close>

definition executeJob ::
  "'v runtime \<Rightarrow> 'v job \<Rightarrow> child_process \<Rightarrow> 'v event list \<times> outcome option" where
  "executeJob rt j child =
     (let st = spawnClaude rt (command j) (options j) child
      in (map (JobOutput (job_id j) (project_name j) (session_id j)) (sent st), settled st))"

subsection \<open>startProjectWorker, startJobPolling, addJob, stop, getJobStatus\<close>

definition startProjectWorker ::
  "'v runtime \<Rightarrow> timestamp \<Rightarrow> string \<Rightarrow> 'v jobWorker \<Rightarrow> 'v jobWorker" where
  "startProjectWorker rt now project s =
     (if map_of (projectWorkers s) project \<noteq> None then s
      else fst (processProjectJobs rt now project
                  (s\<lparr> projectWorkers :=
                       AList.update project
                         \<lparr> projectName = project, isRunning = False, currentJobId = None,
                           currentPromise = None \<rparr>
                         (projectWorkers s) \<rparr>)))"

text \<open>The elements of \<open>new Set(xs)\<close> in iteration order.\<close>

definition set_order :: "'a list \<Rightarrow> 'a list" where
  "set_order xs = rev (remdups (rev xs))"

definition startJobPolling :: "'v runtime \<Rightarrow> timestamp \<Rightarrow> 'v jobWorker \<Rightarrow> 'v jobWorker" where
  "startJobPolling rt now s =
     (if isShuttingDown s then s
      else case getActiveJobs rt (db s) of
        Inl e \<Rightarrow> s
      | Inr activeJobs \<Rightarrow>
          let s1 = fold (\<lambda>p acc.
                       if map_of (projectWorkers acc) p = None
                          \<and> length (projectWorkers acc) < maxConcurrentProjects acc
                       then startProjectWorker rt now p acc else acc)
                     (set_order (map project_name activeJobs)) s
          in emit (JobsUpdate activeJobs (map fst (projectWorkers s1))) s1)"

definition addJob ::
  "'v runtime \<Rightarrow> timestamp \<Rightarrow> string \<Rightarrow> string option \<Rightarrow> string \<Rightarrow> 'v \<Rightarrow> nat option \<Rightarrow> int \<Rightarrow>
     'v jobWorker \<Rightarrow> error + (nat \<times> 'v jobWorker)" where
  "addJob rt now project sessionId cmd opts userId prio s =
     (case jobDb_addJob rt now project sessionId cmd opts userId prio (db s) of
        Inl e \<Rightarrow> Inl e
      | Inr (new_id, d) \<Rightarrow>
          let s1 = emit (JobQueued new_id project sessionId
                           (if cmd \<noteq> [] then take 100 cmd @ ''...''
                            else ''[Continue/Resume]''))
                        (s\<lparr> db := d \<rparr>);
              s2 = (if map_of (projectWorkers s1) project = None
                       \<and> length (projectWorkers s1) < maxConcurrentProjects s1
                    then setImmediate (StartProjectWorker project) s1 else s1)
          in Inr (new_id, s2))"

definition stop :: "'v jobWorker \<Rightarrow> 'v jobWorker" where
  "stop s = s\<lparr> isShuttingDown := True \<rparr>"

record 'v job_status =
  activeJobs :: "'v job list"
  workingProjects :: "string list"
  totalWorkers :: nat
  status_maxConcurrentProjects :: nat

definition getJobStatus :: "'v runtime \<Rightarrow> 'v jobWorker \<Rightarrow> 'v job_status" where
  "getJobStatus rt s =
     (case getActiveJobs rt (db s) of
        Inr active \<Rightarrow>
          \<lparr> activeJobs = active, workingProjects = map fst (projectWorkers s),
            totalWorkers = length (projectWorkers s),
            status_maxConcurrentProjects = maxConcurrentProjects s \<rparr>
      | Inl e \<Rightarrow>
          \<lparr> activeJobs = [], workingProjects = [], totalWorkers = 0,
            status_maxConcurrentProjects = maxConcurrentProjects s \<rparr>)"

text \<open>The hourly timer: \<open>try { jobDb.cleanupOldJobs() } catch ...\<close>\<close>

definition cleanup_tick :: "'v jobWorker \<Rightarrow> 'v jobWorker" where
  "cleanup_tick s = (case cleanupOldJobs None (db s) of Inl e \<Rightarrow> s | Inr d \<Rightarrow> s\<lparr> db := d \<rparr>)"

subsection \<open>The runs of the system\<close>

definition run_task :: "'v runtime \<Rightarrow> timestamp \<Rightarrow> task \<Rightarrow> 'v jobWorker \<Rightarrow> 'v jobWorker" where
  "run_task rt now t s =
     (case t of
        StartProjectWorker p \<Rightarrow> startProjectWorker rt now p s
      | ProcessProjectJobs p \<Rightarrow> fst (processProjectJobs rt now p s))"

text \<open>
  One step of the event loop: a caller submits a job; a scheduled callback runs; a timer
  fires (poll, recovery, cleanup); the process of a running job ends, its output is
  emitted and the worker resumes; shutdown begins; the storage fails or comes back.
\<close>

inductive step :: "'v runtime \<Rightarrow> 'v jobWorker \<Rightarrow> 'v jobWorker \<Rightarrow> bool" for rt :: "'v runtime" where
  submit: "addJob rt now project sessionId cmd opts userId prio s = Inr (i, s')
             \<Longrightarrow> step rt s s'"
| immediate: "t \<in> set (immediates s)
             \<Longrightarrow> step rt s (run_task rt now t (s\<lparr> immediates := remove1 t (immediates s) \<rparr>))"
| poll: "step rt s (startJobPolling rt now s)"
| recover: "step rt s (recoverStuckJobs rt now clock s)"
| cleanup: "step rt s (cleanup_tick s)"
| finish: "map_of (projectWorkers s) project = Some w \<Longrightarrow> currentPromise w = Some j
             \<Longrightarrow> executeJob rt j child = (outs, Some out)
             \<Longrightarrow> step rt s (fst (processProjectJobs_resume now project out
                                     (s\<lparr> emitted := emitted s @ outs \<rparr>)))"
| shutdown: "step rt s (stop s)"
| storage: "step rt s (s\<lparr> db := (db s)\<lparr> is_open := b \<rparr> \<rparr>)"

inductive reachable :: "'v runtime \<Rightarrow> 'v jobWorker \<Rightarrow> bool" for rt :: "'v runtime" where
  reach_init: "reachable rt init"
| reach_step: "reachable rt s \<Longrightarrow> step rt s s' \<Longrightarrow> reachable rt s'"

section \<open>Notions of the specification, and sample data\<close>

text \<open>
  The candidate set and the order of claimNext as the specification words them: a job of
  the project with status pending or failed whose session, if it has one, is not the
  session of a running job of the project; pending before failed, then the higher
  priority, then the earlier creation time.
\<close>

definition claim_candidate :: "string \<Rightarrow> row list \<Rightarrow> row \<Rightarrow> bool" where
  "claim_candidate p rs r \<longleftrightarrow>
     r \<in> set rs \<and> project_name r = p
     \<and> (status r = ''pending'' \<or> status r = ''failed'')
     \<and> (case session_id r of
          None \<Rightarrow> True
        | Some s \<Rightarrow> \<not> (\<exists>q\<in>set rs. project_name q = p \<and> status q = ''running''
                                  \<and> session_id q = Some s))"

definition claim_precedes :: "row \<Rightarrow> row \<Rightarrow> bool" where
  "claim_precedes a b \<longleftrightarrow>
     (status a = ''pending'' \<and> status b = ''failed'')
     \<or> (status a = status b
        \<and> (priority a > priority b
           \<or> (priority a = priority b \<and> created_at a \<le> created_at b)))"

text \<open>
  A sample runtime for the concrete instances below. A value is its JSON text; texts
  that open with a brace and the text null parse; only null refuses the reading of a
  property, and the one object with a session id has it: the string s1. No object of
  this runtime has tools settings, so that no value is ever iterated or compared with
  zero.
\<close>

definition sample_rt :: "string runtime" where
  "sample_rt =
     \<lparr> JSON_parse = (\<lambda>s. if s = ''null'' \<or> (s \<noteq> [] \<and> hd s = CHR ''{'') then Some s else None),
       JSON_stringify = Some,
       get_prop = (\<lambda>v k. if v = ''null'' then Throws
                         else if k = ''session_id'' \<and> v = ''{\"session_id\":\"s1\"}''
                              then Truthy ''s1''
                         else Falsy),
       as_string = (\<lambda>v. if v = ''s1'' then Some ''s1'' else None),
       spread = (\<lambda>v. None),
       gt_zero = (\<lambda>v. False) \<rparr>"

text \<open>A row of project \<open>p\<close> with the given id, session, status, priority and creation time.\<close>

definition sample_row :: "nat \<Rightarrow> string \<Rightarrow> string option \<Rightarrow> string \<Rightarrow> int \<Rightarrow> timestamp \<Rightarrow> row" where
  "sample_row i p sid st prio t =
     \<lparr> job_id = i, project_name = p, session_id = sid, command = ''do'',
       options = ''{}'', status = st, priority = prio, created_at = t,
       started_at = None, completed_at = None, error_message = None, user_id = None \<rparr>"

text \<open>What the recovery sweep writes to the row of a stuck job.\<close>

definition mark :: "(nat \<Rightarrow> timestamp) \<Rightarrow> row \<Rightarrow> row" where
  "mark clock r = set_status (clock (job_id r)) ''failed''
                    (Some ''Job timeout - marked for recovery'') r"

text \<open>The rows the retention sweep of a project looks at: its finished jobs.\<close>

definition old_of :: "string \<Rightarrow> row \<Rightarrow> bool" where
  "old_of p r \<longleftrightarrow> project_name r = p \<and> finished r"

text \<open>
  Retention as the specification words it: \<open>rs'\<close> is what is left of \<open>rs\<close> when, of the
  finished jobs of the project, the 100 with the greatest completed_at stay (all of
  them when there are fewer) and every other row stays as it is and where it is.
\<close>

definition retention_of :: "string \<Rightarrow> row list \<Rightarrow> row list \<Rightarrow> bool" where
  "retention_of p rs rs' \<longleftrightarrow>
     subseq rs' rs
     \<and> filter (\<lambda>r. \<not> (project_name r = p \<and> finished r)) rs'
         = filter (\<lambda>r. \<not> (project_name r = p \<and> finished r)) rs
     \<and> length (filter (\<lambda>r. project_name r = p \<and> finished r) rs')
         = min 100 (length (filter (\<lambda>r. project_name r = p \<and> finished r) rs))
     \<and> (\<forall>k\<in>set rs'. \<forall>x\<in>set rs.
           project_name k = p \<and> finished k \<and> project_name x = p \<and> finished x
           \<and> x \<notin> set rs' \<longrightarrow> completed_at x \<le> completed_at k)"

text \<open>A store with 101 completed jobs of one project, completed one after the other.\<close>

definition many_done :: database where
  "many_done =
     \<lparr> jobs = map (\<lambda>i. (sample_row i ''q'' None ''completed'' 0 0)
                          \<lparr> completed_at := Some (int i) \<rparr>) [1..<102],
       last_rowid = 101, is_open = True \<rparr>"

text \<open>
  A sample run: one job is submitted to the fresh system; the scheduled callback starts
  the worker of its project, which claims the job; then the process of the job fails
  to start.
\<close>

definition s_queued :: "string jobWorker" where
  "s_queued = (case addJob sample_rt 1 ''p'' None ''do'' ''{}'' None 0 init of
                 Inr (i, s) \<Rightarrow> s | Inl e \<Rightarrow> init)"

definition s_running :: "string jobWorker" where
  "s_running = run_task sample_rt 2 (StartProjectWorker ''p'')
                 (s_queued\<lparr> immediates := remove1 (StartProjectWorker ''p'')
                                                  (immediates s_queued) \<rparr>)"

definition s_spawn_failed :: "string jobWorker" where
  "s_spawn_failed =
     fst (processProjectJobs_resume 3 ''p'' (Rejected (ProcessError ''spawn claude ENOENT''))
            (s_running\<lparr> emitted := emitted s_running
                 @ [JobOutput 1 ''p'' None (ClaudeError ''spawn claude ENOENT'')] \<rparr>))"

text \<open>
  The messages that carry a line of output, as against the session notice the handler
  may send before one.
\<close>

definition payload :: "'v ws_message \<Rightarrow> bool" where
  "payload m = (case m of SessionCreated _ \<Rightarrow> False | _ \<Rightarrow> True)"

text \<open>
  Session exclusivity within a project, and the invariant of the table that carries it:
  ids are distinct, positive and at most the AUTOINCREMENT counter, running rows have a
  start time, and no two running rows of one project share a session.
\<close>

definition session_exclusive :: "row list \<Rightarrow> bool" where
  "session_exclusive rs \<longleftrightarrow>
     (\<forall>r1\<in>set rs. \<forall>r2\<in>set rs.
        status r1 = ''running'' \<and> status r2 = ''running''
        \<and> project_name r1 = project_name r2
        \<and> session_id r1 \<noteq> None \<and> session_id r1 = session_id r2
        \<longrightarrow> r1 = r2)"

definition rows_inv :: "nat \<Rightarrow> row list \<Rightarrow> bool" where
  "rows_inv n rs \<longleftrightarrow>
     distinct (map job_id rs)
     \<and> (\<forall>r\<in>set rs. 0 < job_id r \<and> job_id r \<le> n)
     \<and> (\<forall>r\<in>set rs. status r = ''running'' \<longrightarrow> started_at r \<noteq> None)
     \<and> session_exclusive rs"

definition store_inv :: "database \<Rightarrow> bool" where
  "store_inv d \<longleftrightarrow> rows_inv (last_rowid d) (jobs d)"

text \<open>
  Two jobs with the same session are submitted for projects \<open>p\<close> and \<open>q\<close>; then the
  poll timer fires.
\<close>

definition two_queued :: "string \<Rightarrow> string \<Rightarrow> string jobWorker" where
  "two_queued p q =
     (case addJob sample_rt 1 p (Some ''s'') ''do'' ''{}'' None 0 init of
        Inl e \<Rightarrow> init
      | Inr (i, s1) \<Rightarrow>
          (case addJob sample_rt 2 q (Some ''s'') ''do'' ''{}'' None 0 s1 of
             Inl e \<Rightarrow> init
           | Inr (k, s2) \<Rightarrow> s2))"

definition two_started :: "string \<Rightarrow> string \<Rightarrow> string jobWorker" where
  "two_started p q =
     startJobPolling sample_rt 3 (two_queued p q)"

text \<open>
  The writes the system performs on the store, one statement each: the insert of a
  submitted job, an update to a status other than running, the update to running of
  the job just selected for its project, a cleanup, and the storage failing or
  coming back.
\<close>

inductive store_step :: "'v runtime \<Rightarrow> database \<Rightarrow> database \<Rightarrow> bool" for rt :: "'v runtime" where
  insert_job: "jobDb_addJob rt now p sid cmd opts uid prio d = Inr (i, d') \<Longrightarrow> store_step rt d d'"
| finish_job: "st \<noteq> ''running'' \<Longrightarrow> updateJobStatus now i st msg d = Inr d' \<Longrightarrow> store_step rt d d'"
| claim_job: "select_next p (jobs d) = Some r
              \<Longrightarrow> updateJobStatus now (job_id r) ''running'' None d = Inr d' \<Longrightarrow> store_step rt d d'"
| cleanup_jobs: "cleanupOldJobs project d = Inr d' \<Longrightarrow> store_step rt d d'"
| toggle: "store_step rt d (d\<lparr> is_open := b \<rparr>)"

section \<open>JSON values and texts\<close>

text \<open>
  A model of the values \<open>JSON.stringify\<close> and \<open>JSON.parse\<close> work on, after the language
  standard, for concrete instances: the values of JSON and, of those JSON does not
  know, undefined and NaN. Numbers are the integers; strings are rows of 8-bit
  characters; an object is the list of its own properties in the order of enumeration,
  with distinct keys.
\<close>

datatype jsval =
    JUndefined
  | JNull
  | JBool bool
  | JNum int
  | JNaN
  | JStr string
  | JArr "jsval list"
  | JObj "(string \<times> jsval) list"

subsection \<open>JSON.stringify\<close>

definition show_int :: "int \<Rightarrow> string" where
  "show_int n = (if n < 0 then CHR ''-'' # show_nat (nat (- n)) else show_nat (nat n))"

text \<open>
  A string in quotes: the quote and the backslash are escaped, and so are the control
  characters, the common ones by their letter and the others by their code.
\<close>

definition quote_char :: "char \<Rightarrow> string" where
  "quote_char c =
     (if c = CHR 0x22 then [CHR 0x5C, CHR 0x22]
      else if c = CHR 0x5C then [CHR 0x5C, CHR 0x5C]
      else if c = CHR 0x08 then [CHR 0x5C, CHR ''b'']
      else if c = CHR 0x0C then [CHR 0x5C, CHR ''f'']
      else if c = CHR 0x0A then [CHR 0x5C, CHR ''n'']
      else if c = CHR 0x0D then [CHR 0x5C, CHR ''r'']
      else if c = CHR 0x09 then [CHR 0x5C, CHR ''t'']
      else if (of_char c :: nat) < 32
        then [CHR 0x5C, CHR ''u'', CHR ''0'', CHR ''0'',
              ''0123456789abcdef'' ! (of_char c div 16),
              ''0123456789abcdef'' ! (of_char c mod 16)]
      else [c])"

definition quote :: "string \<Rightarrow> string" where
  "quote s = CHR 0x22 # concat (map quote_char s) @ [CHR 0x22]"

fun join :: "string list \<Rightarrow> string" where
  "join [] = []"
| "join [x] = x"
| "join (x # y # ys) = x @ CHR '','' # join (y # ys)"

text \<open>
  The text of a value; \<open>None\<close> is the result undefined. NaN is printed as null; in an
  array undefined is printed as null; a property whose value is undefined is left out.
\<close>

primrec json_text :: "jsval \<Rightarrow> string option" where
  "json_text JUndefined = None"
| "json_text JNull = Some ''null''"
| "json_text (JBool b) = Some (if b then ''true'' else ''false'')"
| "json_text (JNum n) = Some (show_int n)"
| "json_text JNaN = Some ''null''"
| "json_text (JStr s) = Some (quote s)"
| "json_text (JArr xs) =
     Some (CHR ''['' # join (map (\<lambda>t. case t of None \<Rightarrow> ''null'' | Some x \<Rightarrow> x)
                               (map json_text xs)) @ '']'')"
| "json_text (JObj kvs) =
     Some (CHR ''{'' # join (List.map_filter
                               (\<lambda>(k, t). map_option (\<lambda>x. quote k @ CHR '':'' # x) t)
                               (map (map_prod id json_text) kvs)) @ ''}'')"

subsection \<open>JSON.parse\<close>

definition json_ws :: "char \<Rightarrow> bool" where
  "json_ws c \<longleftrightarrow> c = CHR 0x20 \<or> c = CHR 0x09 \<or> c = CHR 0x0A \<or> c = CHR 0x0D"

definition skip_ws :: "string \<Rightarrow> string" where
  "skip_ws s = dropWhile json_ws s"

definition is_digit :: "char \<Rightarrow> bool" where
  "is_digit c \<longleftrightarrow> c \<in> set ''0123456789''"

definition read_nat :: "string \<Rightarrow> nat" where
  "read_nat ds = foldl (\<lambda>n c. 10 * n + (of_char c - 48)) 0 ds"

text \<open>
  A number: an optional sign and digits without a leading zero. A fraction or an
  exponent makes a number that is not an integer of this model, and is not read.
\<close>

definition parse_number :: "string \<Rightarrow> (jsval \<times> string) option" where
  "parse_number s =
     (let neg = (s \<noteq> [] \<and> hd s = CHR ''-'');
          body = (if neg then tl s else s);
          ds = takeWhile is_digit body;
          rest = dropWhile is_digit body
      in if ds = [] \<or> (1 < length ds \<and> hd ds = CHR ''0'') then None
         else if rest \<noteq> [] \<and> hd rest \<in> set ''.eE'' then None
         else Some (JNum (if neg then - int (read_nat ds) else int (read_nat ds)), rest))"

definition hex_val :: "char \<Rightarrow> nat option" where
  "hex_val c =
     (if is_digit c then Some (of_char c - 48)
      else if c \<in> set ''abcdef'' then Some (of_char c - 87)
      else if c \<in> set ''ABCDEF'' then Some (of_char c - 55)
      else None)"

definition unescape :: "char \<Rightarrow> char option" where
  "unescape e =
     (if e = CHR 0x22 \<or> e = CHR 0x5C \<or> e = CHR ''/'' then Some e
      else if e = CHR ''b'' then Some (CHR 0x08)
      else if e = CHR ''f'' then Some (CHR 0x0C)
      else if e = CHR ''n'' then Some (CHR 0x0A)
      else if e = CHR ''r'' then Some (CHR 0x0D)
      else if e = CHR ''t'' then Some (CHR 0x09)
      else None)"

text \<open>
  The characters of a string up to its closing quote, and what follows it. An escape
  by code is read when the code is below 256.
\<close>

fun parse_chars :: "string \<Rightarrow> (string \<times> string) option" where
  "parse_chars [] = None"
| "parse_chars (c # cs) =
     (if c = CHR 0x22 then Some ([], cs)
      else if c = CHR 0x5C then
        (case cs of
           [] \<Rightarrow> None
         | e # es \<Rightarrow>
             if e = CHR ''u'' then
               (case es of
                  h1 # h2 # h3 # h4 # after \<Rightarrow>
                    (case (hex_val h1, hex_val h2, hex_val h3, hex_val h4) of
                       (Some a, Some b, Some x, Some y) \<Rightarrow>
                         if a = 0 \<and> b = 0
                         then map_option (apfst (Cons (char_of (16 * x + y))))
                                         (parse_chars after)
                         else None
                     | _ \<Rightarrow> None)
                | _ \<Rightarrow> None)
             else (case unescape e of
                     None \<Rightarrow> None
                   | Some x \<Rightarrow> map_option (apfst (Cons x)) (parse_chars es)))
      else if (of_char c :: nat) < 32 then None
      else map_option (apfst (Cons c)) (parse_chars cs))"

text \<open>
  A value, the elements of an array from one of them on, and the members of an object
  from one of them on, each with the text that follows. The first argument bounds the
  depth of the calls; twice the length of the text is enough for any text. A key that
  comes again takes the place of its first occurrence.
\<close>

fun parse_value :: "nat \<Rightarrow> string \<Rightarrow> (jsval \<times> string) option"
  and parse_items :: "nat \<Rightarrow> jsval list \<Rightarrow> string \<Rightarrow> (jsval \<times> string) option"
  and parse_members :: "nat \<Rightarrow> (string \<times> jsval) list \<Rightarrow> string \<Rightarrow> (jsval \<times> string) option"
where
  "parse_value 0 s = None"
| "parse_value (Suc n) s =
     (case skip_ws s of
        [] \<Rightarrow> None
      | c # cs \<Rightarrow>
          if c = CHR ''{'' then
            (case skip_ws cs of
               [] \<Rightarrow> None
             | d # ds \<Rightarrow> if d = CHR ''}'' then Some (JObj [], ds)
                         else parse_members n [] (d # ds))
          else if c = CHR ''['' then
            (case skip_ws cs of
               [] \<Rightarrow> None
             | d # ds \<Rightarrow> if d = CHR '']'' then Some (JArr [], ds)
                         else parse_items n [] (d # ds))
          else if c = CHR 0x22 then map_option (apfst JStr) (parse_chars cs)
          else if c = CHR ''-'' \<or> is_digit c then parse_number (c # cs)
          else if take 4 (c # cs) = ''true'' then Some (JBool True, drop 4 (c # cs))
          else if take 5 (c # cs) = ''false'' then Some (JBool False, drop 5 (c # cs))
          else if take 4 (c # cs) = ''null'' then Some (JNull, drop 4 (c # cs))
          else None)"
| "parse_items 0 acc s = None"
| "parse_items (Suc n) acc s =
     (case parse_value n s of
        None \<Rightarrow> None
      | Some (v, rest) \<Rightarrow>
          (case skip_ws rest of
             [] \<Rightarrow> None
           | c # cs \<Rightarrow>
               if c = CHR '','' then parse_items n (acc @ [v]) cs
               else if c = CHR '']'' then Some (JArr (acc @ [v]), cs)
               else None))"
| "parse_members 0 acc s = None"
| "parse_members (Suc n) acc s =
     (case skip_ws s of
        [] \<Rightarrow> None
      | c # cs \<Rightarrow>
          if c \<noteq> CHR 0x22 then None
          else (case parse_chars cs of
                  None \<Rightarrow> None
                | Some (k, rest) \<Rightarrow>
                    (case skip_ws rest of
                       [] \<Rightarrow> None
                     | c2 # cs2 \<Rightarrow>
                         if c2 \<noteq> CHR '':'' then None
                         else (case parse_value n cs2 of
                                 None \<Rightarrow> None
                               | Some (v, rest2) \<Rightarrow>
                                   (case skip_ws rest2 of
                                      [] \<Rightarrow> None
                                    | c3 # cs3 \<Rightarrow>
                                        if c3 = CHR '',''
                                        then parse_members n (AList.update k v acc) cs3
                                        else if c3 = CHR ''}''
                                        then Some (JObj (AList.update k v acc), cs3)
                                        else None)))))"

text \<open>The whole text is one value; \<open>None\<close> is the SyntaxError.\<close>

definition json_parse :: "string \<Rightarrow> jsval option" where
  "json_parse s =
     (case parse_value (Suc (length s + length s)) s of
        None \<Rightarrow> None
      | Some (v, rest) \<Rightarrow> if skip_ws rest = [] then Some v else None)"

subsection \<open>Properties, strings, iteration\<close>

definition truthy :: "jsval \<Rightarrow> bool" where
  "truthy v \<longleftrightarrow>
     v \<noteq> JUndefined \<and> v \<noteq> JNull \<and> v \<noteq> JBool False \<and> v \<noteq> JNum 0 \<and> v \<noteq> JNaN \<and> v \<noteq> JStr []"

text \<open>
  The reading of a property, for the names the code reads: none of them is an index or
  the name of a method, so that an array and a string have of them only \<open>length\<close>.
\<close>

definition json_get :: "jsval \<Rightarrow> string \<Rightarrow> jsval access" where
  "json_get v name =
     (case v of
        JUndefined \<Rightarrow> Throws
      | JNull \<Rightarrow> Throws
      | JObj kvs \<Rightarrow>
          (case map_of kvs name of
             None \<Rightarrow> Falsy
           | Some x \<Rightarrow> if truthy x then Truthy x else Falsy)
      | JArr xs \<Rightarrow>
          if name = ''length'' \<and> xs \<noteq> [] then Truthy (JNum (int (length xs))) else Falsy
      | JStr s \<Rightarrow>
          if name = ''length'' \<and> s \<noteq> [] then Truthy (JNum (int (length s))) else Falsy
      | _ \<Rightarrow> Falsy)"

definition json_string :: "jsval \<Rightarrow> string option" where
  "json_string v = (case v of JStr s \<Rightarrow> Some s | _ \<Rightarrow> None)"

text \<open>Arrays and strings can be iterated, a string by its characters.\<close>

definition json_spread :: "jsval \<Rightarrow> jsval list option" where
  "json_spread v =
     (case v of
        JArr xs \<Rightarrow> Some xs
      | JStr s \<Rightarrow> Some (map (\<lambda>c. JStr [c]) s)
      | _ \<Rightarrow> None)"

text \<open>
  \<open>x > 0\<close>, for the values a \<open>length\<close> can have in a JSON text: a number, a boolean (true
  counts as 1), a string that is a row of digits.
\<close>

definition json_gt_zero :: "jsval \<Rightarrow> bool" where
  "json_gt_zero v =
     (case v of
        JNum n \<Rightarrow> 0 < n
      | JBool b \<Rightarrow> b
      | JStr s \<Rightarrow> s \<noteq> [] \<and> list_all is_digit s \<and> 0 < read_nat s
      | _ \<Rightarrow> False)"

definition json_rt :: "jsval runtime" where
  "json_rt = \<lparr> JSON_parse = json_parse, JSON_stringify = json_text, get_prop = json_get,
              as_string = json_string, spread = json_spread, gt_zero = json_gt_zero \<rparr>"

section \<open>Selection order of getNextJobForProject\<close>

lemma limit1_sort_key_min:
  fixes f :: "'a \<Rightarrow> 'k::linorder"
  assumes "limit1 (sort_key f xs) = Some x"
  shows "x \<in> set xs \<and> (\<forall>y\<in>set xs. f x \<le> f y)"
proof -
  from assms obtain ys where ys: "sort_key f xs = x # ys"
    by (auto simp: limit1_def split: list.splits)
  have "set (x # ys) = set xs"
    using ys set_sort [of f xs] by simp
  moreover have "sorted (map f (x # ys))"
    using ys sorted_sort_key [of f xs] by simp
  ultimately show ?thesis by auto
qed

lemma limit1_None: "limit1 xs = None \<longleftrightarrow> xs = []"
  by (simp add: limit1_def split: list.splits)

lemma sort_key_Nil_iff: "sort_key f xs = [] \<longleftrightarrow> xs = []"
  by (metis length_sort length_0_conv)

lemma runningSessions_set:
  "set (runningSessions p rs) =
     {s. \<exists>q\<in>set rs. project_name q = p \<and> status q = ''running'' \<and> session_id q = Some s}"
  by (force simp: runningSessions_def List.map_filter_def image_iff)

lemma next_where_candidate:
  "filter (next_where p (runningSessions p rs)) rs = filter (claim_candidate p rs) rs"
proof (rule filter_cong [OF refl])
  fix r assume r: "r \<in> set rs"
  show "next_where p (runningSessions p rs) r = claim_candidate p rs r"
  proof (cases "runningSessions p rs = []")
    case True
    then have "set (runningSessions p rs) = {}" by simp
    then have none: "\<And>s. \<not> (\<exists>q\<in>set rs. project_name q = p \<and> status q = ''running''
                                     \<and> session_id q = Some s)"
      unfolding runningSessions_set by blast
    show ?thesis
      using r True none
      by (auto simp: next_where_def claim_candidate_def split: option.splits)
  next
    case False
    then show ?thesis
      using r
      by (auto simp: next_where_def claim_candidate_def runningSessions_set
               split: option.splits)
  qed
qed

lemma next_order_precedes:
  assumes "status a = ''pending'' \<or> status a = ''failed''"
    and "status b = ''pending'' \<or> status b = ''failed''"
    and "next_order a \<le> next_order b"
  shows "claim_precedes a b"
  using assms
  by (auto simp: next_order_def claim_precedes_def less_eq_prod_def split: if_splits)

lemma select_next_None:
  "select_next p rs = None \<longleftrightarrow> (\<forall>r\<in>set rs. \<not> claim_candidate p rs r)"
  by (simp add: select_next_def limit1_None sort_key_Nil_iff next_where_candidate
                filter_empty_conv)

lemma select_next_Some:
  assumes "select_next p rs = Some r"
  shows "claim_candidate p rs r \<and> (\<forall>c. claim_candidate p rs c \<longrightarrow> claim_precedes r c)"
proof -
  let ?cs = "filter (claim_candidate p rs) rs"
  from assms have "limit1 (sort_key next_order ?cs) = Some r"
    by (simp add: select_next_def next_where_candidate)
  from limit1_sort_key_min [OF this]
  have r: "r \<in> set ?cs" and least: "\<forall>c\<in>set ?cs. next_order r \<le> next_order c"
    by blast+
  have "claim_precedes r c" if c: "claim_candidate p rs c" for c
  proof -
    from c have "c \<in> set ?cs" by (simp add: claim_candidate_def)
    with least have "next_order r \<le> next_order c" by blast
    moreover from r have "status r = ''pending'' \<or> status r = ''failed''"
      by (auto simp: claim_candidate_def)
    moreover from c have "status c = ''pending'' \<or> status c = ''failed''"
      by (auto simp: claim_candidate_def)
    ultimately show ?thesis by (rule next_order_precedes [rotated 2])
  qed
  with r show ?thesis by simp
qed

lemma parse_row_fields:
  assumes "parse_row rt r = Inr j"
  shows "job_id j = job_id r" "project_name j = project_name r"
    "session_id j = session_id r" "status j = status r" "command j = command r"
    "started_at j = started_at r" "JSON_parse rt (options r) = Some (options j)"
  using assms by (auto simp: parse_row_def split: option.splits)

text \<open>
  C1. With the store open and every stored options text parseable, getNextJobForProject
  returns none exactly when the project has no candidate; otherwise it returns a
  candidate (with its options parsed) that precedes every candidate in the order
  pending before failed, priority descending, creation time ascending. When some
  candidate is pending the job returned is pending, whatever the priorities of the
  failed ones.
\<close>

theorem getNextJobForProject_minimal:
  assumes "is_open d" and "\<forall>r\<in>set (jobs d). JSON_parse rt (options r) \<noteq> None"
  shows "(getNextJobForProject rt p d = Inr None
            \<longleftrightarrow> (\<forall>r\<in>set (jobs d). \<not> claim_candidate p (jobs d) r))
       \<and> ((\<exists>c. claim_candidate p (jobs d) c) \<longrightarrow>
            (\<exists>r j. claim_candidate p (jobs d) r \<and> parse_row rt r = Inr j
                 \<and> getNextJobForProject rt p d = Inr (Some j)
                 \<and> (\<forall>c. claim_candidate p (jobs d) c \<longrightarrow> claim_precedes r c)
                 \<and> ((\<exists>c. claim_candidate p (jobs d) c \<and> status c = ''pending'')
                      \<longrightarrow> status j = ''pending'')))"
proof (cases "select_next p (jobs d)")
  case None
  then have "\<forall>r\<in>set (jobs d). \<not> claim_candidate p (jobs d) r"
    by (simp add: select_next_None)
  moreover from this have "\<not> (\<exists>c. claim_candidate p (jobs d) c)"
    by (auto simp: claim_candidate_def)
  moreover have "getNextJobForProject rt p d = Inr None"
    using None assms(1) by (simp add: getNextJobForProject_def)
  ultimately show ?thesis by simp
next
  case (Some r)
  from select_next_Some [OF Some]
  have cand: "claim_candidate p (jobs d) r"
    and least: "\<forall>c. claim_candidate p (jobs d) c \<longrightarrow> claim_precedes r c"
    by blast+
  from cand have mem: "r \<in> set (jobs d)" by (simp add: claim_candidate_def)
  with assms(2) obtain v where v: "JSON_parse rt (options r) = Some v" by auto
  then obtain j where j: "parse_row rt r = Inr j" and sj: "status j = status r"
    by (simp add: parse_row_def)
  have res: "getNextJobForProject rt p d = Inr (Some j)"
    using Some assms(1) j by (simp add: getNextJobForProject_def)
  have pend: "status j = ''pending''"
    if "claim_candidate p (jobs d) c" "status c = ''pending''" for c
    using least that sj by (auto simp: claim_precedes_def)
  have "\<not> (\<forall>r\<in>set (jobs d). \<not> claim_candidate p (jobs d) r)"
    using cand mem by blast
  with res cand j least pend show ?thesis by auto
qed

text \<open>
  The instance of the specification: A (priority 0), B and C (priority 5, C later) pending
  and F failed with priority 9; B is returned.
\<close>

theorem getNextJobForProject_minimal_witness:
  "is_open \<lparr> jobs = [sample_row 1 ''p'' None ''pending'' 0 1,
                      sample_row 2 ''p'' None ''pending'' 5 2,
                      sample_row 3 ''p'' None ''pending'' 5 3,
                      sample_row 4 ''p'' None ''failed'' 9 0],
             last_rowid = 4, is_open = True \<rparr>
   \<and> getNextJobForProject sample_rt ''p''
        \<lparr> jobs = [sample_row 1 ''p'' None ''pending'' 0 1,
                   sample_row 2 ''p'' None ''pending'' 5 2,
                   sample_row 3 ''p'' None ''pending'' 5 3,
                   sample_row 4 ''p'' None ''failed'' 9 0],
          last_rowid = 4, is_open = True \<rparr>
     = Inr (Some (sample_row 2 ''p'' None ''pending'' 5 2))"
  using getNextJobForProject_minimal
    [of "\<lparr> jobs = [sample_row 1 ''p'' None ''pending'' 0 1,
                   sample_row 2 ''p'' None ''pending'' 5 2,
                   sample_row 3 ''p'' None ''pending'' 5 3,
                   sample_row 4 ''p'' None ''failed'' 9 0],
          last_rowid = 4, is_open = True \<rparr>" sample_rt "''p''"]
  by (simp add: getNextJobForProject_def select_next_def runningSessions_def
                next_where_def next_order_def limit1_def parse_row_def sample_row_def
                sample_rt_def List.map_filter_def)

section \<open>Facts about the store operations\<close>

lemma jobDb_addJob_result:
  assumes "jobDb_addJob rt now p sid cmd opts uid prio d = Inr (i, d1)"
  shows "\<exists>t. JSON_stringify rt opts = Some t \<and> i = Suc (last_rowid d)
           \<and> d1 = d\<lparr> jobs := jobs d @ [new_row now p sid cmd t uid prio i],
                     last_rowid := i \<rparr>"
proof (cases "is_open d")
  case False
  with assms show ?thesis by (simp add: jobDb_addJob_def)
next
  case True
  show ?thesis
  proof (cases "JSON_stringify rt opts")
    case None
    with True assms show ?thesis by (simp add: jobDb_addJob_def)
  next
    case (Some t)
    with True assms show ?thesis
      by (auto simp: jobDb_addJob_def Let_def)
  qed
qed

lemma new_row_fields:
  "job_id (new_row now p sid cmd t uid prio i) = i"
  "status (new_row now p sid cmd t uid prio i) = ''pending''"
  "options (new_row now p sid cmd t uid prio i) = t"
  "project_name (new_row now p sid cmd t uid prio i) = p"
  "session_id (new_row now p sid cmd t uid prio i) = sid"
  by (simp_all add: new_row_def)

section \<open>The effect of updateJobStatus\<close>

lemma set_status_fields:
  "job_id (set_status now st msg r) = job_id r"
  "project_name (set_status now st msg r) = project_name r"
  "session_id (set_status now st msg r) = session_id r"
  "command (set_status now st msg r) = command r"
  "options (set_status now st msg r) = options r"
  "priority (set_status now st msg r) = priority r"
  "created_at (set_status now st msg r) = created_at r"
  "user_id (set_status now st msg r) = user_id r"
  "status (set_status now st msg r) = st"
  by (simp_all add: set_status_def Let_def split: option.splits)

lemma set_status_times:
  "started_at (set_status now st msg r) = (if st = ''running'' then Some now else started_at r)"
  "completed_at (set_status now st msg r) =
     (if st = ''completed'' \<or> st = ''failed'' then Some now else completed_at r)"
  "error_message (set_status now st msg r) =
     (case msg of None \<Rightarrow> error_message r
      | Some m \<Rightarrow> if m \<noteq> [] then Some m else error_message r)"
  by (auto simp add: set_status_def Let_def split: option.splits)

text \<open>
  C5 (as amended). With the store open, updateJobStatus succeeds; every row with another
  id is unchanged; in the row with the given id the status becomes the given status,
  started_at becomes the clock exactly when the status is running and is unchanged
  otherwise, completed_at becomes the clock exactly when the status is completed or
  failed and is unchanged otherwise, error_message becomes the message when a non-empty
  one is supplied and is unchanged otherwise, and all other columns are unchanged.
\<close>

theorem updateJobStatus_effect:
  assumes "is_open d"
  shows "\<exists>d'. updateJobStatus now i st msg d = Inr d'
           \<and> last_rowid d' = last_rowid d \<and> is_open d' = is_open d
           \<and> length (jobs d') = length (jobs d)
           \<and> (\<forall>k<length (jobs d).
                 (job_id (jobs d ! k) \<noteq> i \<longrightarrow> jobs d' ! k = jobs d ! k)
               \<and> (job_id (jobs d ! k) = i \<longrightarrow>
                    status (jobs d' ! k) = st
                  \<and> started_at (jobs d' ! k) =
                      (if st = ''running'' then Some now else started_at (jobs d ! k))
                  \<and> completed_at (jobs d' ! k) =
                      (if st = ''completed'' \<or> st = ''failed'' then Some now
                       else completed_at (jobs d ! k))
                  \<and> error_message (jobs d' ! k) =
                      (case msg of
                         None \<Rightarrow> error_message (jobs d ! k)
                       | Some m \<Rightarrow> if m \<noteq> [] then Some m else error_message (jobs d ! k))
                  \<and> job_id (jobs d' ! k) = job_id (jobs d ! k)
                  \<and> project_name (jobs d' ! k) = project_name (jobs d ! k)
                  \<and> session_id (jobs d' ! k) = session_id (jobs d ! k)
                  \<and> command (jobs d' ! k) = command (jobs d ! k)
                  \<and> options (jobs d' ! k) = options (jobs d ! k)
                  \<and> priority (jobs d' ! k) = priority (jobs d ! k)
                  \<and> created_at (jobs d' ! k) = created_at (jobs d ! k)
                  \<and> user_id (jobs d' ! k) = user_id (jobs d ! k)))"
  using assms
  by (simp add: updateJobStatus_def set_status_fields set_status_times)

theorem updateJobStatus_effect_witness:
  "updateJobStatus 7 1 ''failed'' (Some ''boom'')
     \<lparr> jobs = [sample_row 1 ''p'' None ''running'' 0 1, sample_row 2 ''p'' None ''pending'' 0 2],
       last_rowid = 2, is_open = True \<rparr>
   = Inr \<lparr> jobs = [(sample_row 1 ''p'' None ''failed'' 0 1)
                      \<lparr> completed_at := Some 7, error_message := Some ''boom'' \<rparr>,
                    sample_row 2 ''p'' None ''pending'' 0 2],
           last_rowid = 2, is_open = True \<rparr>"
  using updateJobStatus_effect
    [of "\<lparr> jobs = [sample_row 1 ''p'' None ''running'' 0 1, sample_row 2 ''p'' None ''pending'' 0 2],
       last_rowid = 2, is_open = True \<rparr>" 7 1 "''failed''" "Some ''boom''"]
  by (simp add: updateJobStatus_def set_status_def sample_row_def)

text \<open>
  C5 as stated fails for the empty message: it is supplied and not stored, the column
  keeps its old content (here NULL).
\<close>

theorem updateJobStatus_empty_message_counterexample:
  "updateJobStatus 7 1 ''failed'' (Some [])
     \<lparr> jobs = [sample_row 1 ''p'' None ''running'' 0 1], last_rowid = 1, is_open = True \<rparr>
   = Inr \<lparr> jobs = [(sample_row 1 ''p'' None ''failed'' 0 1)
                      \<lparr> completed_at := Some 7, error_message := None \<rparr>],
           last_rowid = 1, is_open = True \<rparr>
   \<and> error_message ((sample_row 1 ''p'' None ''failed'' 0 1)
                        \<lparr> completed_at := Some 7, error_message := None \<rparr>) \<noteq> Some []"
  by (simp add: updateJobStatus_def set_status_def sample_row_def)

section \<open>The recovery sweep\<close>

lemma parse_rows_all:
  assumes "\<forall>r\<in>set rs. JSON_parse rt (options r) \<noteq> None"
  shows "\<exists>js. parse_rows rt rs = Inr js \<and> list_all2 (\<lambda>r j. parse_row rt r = Inr j) rs js"
  using assms
proof (induction rs)
  case Nil
  then show ?case by simp
next
  case (Cons r rs)
  then obtain js where js: "parse_rows rt rs = Inr js"
      "list_all2 (\<lambda>r j. parse_row rt r = Inr j) rs js" by auto
  from Cons.prems obtain v where "JSON_parse rt (options r) = Some v" by auto
  then obtain j where "parse_row rt r = Inr j" by (simp add: parse_row_def)
  with js show ?case by simp
qed

lemma stuck_parse_row:
  "parse_row rt r = Inr j \<Longrightarrow> stuck now j = stuck now r"
  by (auto simp: stuck_def parse_row_def split: option.splits)

lemma stuck_ids:
  assumes "list_all2 (\<lambda>r j. parse_row rt r = Inr j) rs js"
  shows "map job_id (filter (stuck now) js) = map job_id (filter (stuck now) rs)"
  using assms
  by (induction rs js rule: list_all2_induct)
     (auto simp: stuck_parse_row parse_row_fields(1))

lemma mark_idem: "mark clock (mark clock r) = mark clock r"
  by (simp add: mark_def set_status_def)

lemma mark_job_id: "job_id (mark clock r) = job_id r"
  by (simp add: mark_def set_status_fields)

lemma mark_compose:
  "(\<lambda>x. if job_id (if job_id x = a then mark clock x else x) \<in> S
         then mark clock (if job_id x = a then mark clock x else x)
         else if job_id x = a then mark clock x else x)
   = (\<lambda>r. if job_id r = a \<or> job_id r \<in> S then mark clock r else r)"
  by (rule ext) (simp add: mark_idem mark_job_id)

lemma recover_loop_open:
  assumes "is_open d"
  shows "recover_loop clock js d =
           d\<lparr> jobs := map (\<lambda>r. if job_id r \<in> job_id ` set js then mark clock r else r)
                            (jobs d) \<rparr>"
  using assms
proof (induction js arbitrary: d)
  case Nil
  then show ?case by simp
next
  case (Cons j js)
  let ?d1 = "d\<lparr> jobs := map (\<lambda>r. if job_id r = job_id j then mark clock r else r) (jobs d) \<rparr>"
  have "(\<lambda>r. if job_id r = job_id j
             then set_status (clock (job_id j)) ''failed''
                    (Some ''Job timeout - marked for recovery'') r
             else r)
        = (\<lambda>r. if job_id r = job_id j then mark clock r else r)"
    by (rule ext) (simp add: mark_def)
  then have upd: "updateJobStatus (clock (job_id j)) (job_id j) ''failed''
               (Some ''Job timeout - marked for recovery'') d = Inr ?d1"
    using Cons.prems by (simp add: updateJobStatus_def)
  have "is_open ?d1" using Cons.prems by simp
  from Cons.IH [OF this]
  have "recover_loop clock js ?d1 =
          d\<lparr> jobs := map (\<lambda>r. if job_id r = job_id j \<or> job_id r \<in> job_id ` set js
                                then mark clock r else r) (jobs d) \<rparr>"
    by (simp add: o_def mark_compose)
  with upd show ?case by simp
qed

lemma stuck_row_ids:
  assumes "distinct (map job_id rs)" and "r \<in> set rs"
  shows "job_id r \<in> job_id ` set (filter (stuck now) rs) \<longleftrightarrow> stuck now r"
  using assms by (auto simp: distinct_map inj_on_def)

lemma filter_sort_key_ids:
  "set (filter P (sort_key f (filter Q rs))) = {r \<in> set rs. P r \<and> Q r}"
  by auto


lemma mark_record:
  "mark clock r = r\<lparr> status := ''failed'', completed_at := Some (clock (job_id r)),
                      error_message := Some ''Job timeout - marked for recovery'' \<rparr>"
  by (simp add: mark_def set_status_def)

lemma stuck_iff:
  assumes "status r = ''running'' \<longrightarrow> started_at r \<noteq> None"
  shows "stuck now r \<longleftrightarrow>
           status r = ''running'' \<and> (\<exists>t. started_at r = Some t \<and> t < now - 30 * 60 * 1000)"
  using assms by (auto simp: stuck_def date_of_def split: option.splits)

lemma recoverStuckJobs_marks:
  assumes op: "is_open (db s)"
    and parse: "\<forall>r\<in>set (jobs (db s)). JSON_parse rt (options r) \<noteq> None"
  shows "recoverStuckJobs rt now clock s =
           s\<lparr> db := (db s)\<lparr> jobs :=
                 map (\<lambda>r. if job_id r \<in> job_id ` set (filter (stuck now) (jobs (db s)))
                          then mark clock r else r) (jobs (db s)) \<rparr> \<rparr>"
proof -
  let ?rs = "jobs (db s)"
  let ?A = "sort_key active_order
              (filter (\<lambda>r. status r = ''pending'' \<or> status r = ''running'') ?rs)"
  have "\<forall>r\<in>set ?A. JSON_parse rt (options r) \<noteq> None" using parse by simp
  from parse_rows_all [OF this] obtain js where
    js: "parse_rows rt ?A = Inr js" "list_all2 (\<lambda>r j. parse_row rt r = Inr j) ?A js"
    by blast
  have act: "getActiveJobs rt (db s) = Inr js"
    using op js(1) by (simp add: getActiveJobs_def)
  have "job_id ` set (filter (stuck now) js) = job_id ` set (filter (stuck now) ?A)"
    using stuck_ids [OF js(2), of now] by (metis set_map)
  also have "set (filter (stuck now) ?A) = set (filter (stuck now) ?rs)"
    by (auto simp: stuck_def)
  finally have ids: "job_id ` set (filter (stuck now) js)
                     = job_id ` set (filter (stuck now) ?rs)" .
  show ?thesis
  proof (cases "filter (stuck now) js = []")
    case True
    with ids have "job_id ` set (filter (stuck now) ?rs) = {}" by simp
    then have "map (\<lambda>r. if job_id r \<in> job_id ` set (filter (stuck now) ?rs)
                        then mark clock r else r) ?rs = ?rs"
      by simp
    then show ?thesis using act True by (simp add: recoverStuckJobs_def)
  next
    case False
    then show ?thesis
      using act ids op by (simp add: recoverStuckJobs_def recover_loop_open)
  qed
qed

text \<open>
  C3. With the store open, ids distinct, stored options parseable and started_at set on
  every running row, one run of recoverStuckJobs rewrites exactly the rows whose status
  is running and whose started_at is more than 30 minutes before the time of the sweep:
  their status becomes failed, with the recovery diagnostic as error_message and the
  clock as completed_at. Every other row, and the rest of the state, is unchanged.
\<close>

theorem recoverStuckJobs_effect:
  assumes "is_open (db s)"
    and "distinct (map job_id (jobs (db s)))"
    and "\<forall>r\<in>set (jobs (db s)). JSON_parse rt (options r) \<noteq> None"
    and "\<forall>r\<in>set (jobs (db s)). status r = ''running'' \<longrightarrow> started_at r \<noteq> None"
  shows "recoverStuckJobs rt now clock s =
           s\<lparr> db := (db s)\<lparr> jobs :=
                 map (\<lambda>r. if status r = ''running''
                             \<and> (\<exists>t. started_at r = Some t \<and> t < now - 30 * 60 * 1000)
                          then r\<lparr> status := ''failed'',
                                 completed_at := Some (clock (job_id r)),
                                 error_message := Some ''Job timeout - marked for recovery'' \<rparr>
                          else r) (jobs (db s)) \<rparr> \<rparr>"
proof -
  have "map (\<lambda>r. if job_id r \<in> job_id ` set (filter (stuck now) (jobs (db s)))
                 then mark clock r else r) (jobs (db s))
        = map (\<lambda>r. if status r = ''running''
                      \<and> (\<exists>t. started_at r = Some t \<and> t < now - 30 * 60 * 1000)
                   then r\<lparr> status := ''failed'',
                          completed_at := Some (clock (job_id r)),
                          error_message := Some ''Job timeout - marked for recovery'' \<rparr>
                   else r) (jobs (db s))"
  proof (rule map_cong [OF refl])
    fix r assume r: "r \<in> set (jobs (db s))"
    have "job_id r \<in> job_id ` set (filter (stuck now) (jobs (db s))) \<longleftrightarrow> stuck now r"
      using stuck_row_ids [OF assms(2) r] .
    also have "\<dots> \<longleftrightarrow> status r = ''running''
                 \<and> (\<exists>t. started_at r = Some t \<and> t < now - 30 * 60 * 1000)"
      using assms(4) r by (intro stuck_iff) blast
    finally show "(if job_id r \<in> job_id ` set (filter (stuck now) (jobs (db s)))
                   then mark clock r else r)
                = (if status r = ''running''
                      \<and> (\<exists>t. started_at r = Some t \<and> t < now - 30 * 60 * 1000)
                   then r\<lparr> status := ''failed'',
                          completed_at := Some (clock (job_id r)),
                          error_message := Some ''Job timeout - marked for recovery'' \<rparr>
                   else r)"
      by (auto simp add: mark_record)
  qed
  with recoverStuckJobs_marks [OF assms(1) assms(3), of now clock] show ?thesis by simp
qed

text \<open>
  The instance of the specification: started 31 minutes before the sweep, started 10
  minutes before it, and pending.
\<close>

theorem recoverStuckJobs_effect_witness:
  "recoverStuckJobs sample_rt 6000000 (\<lambda>i. 6000001)
     (init\<lparr> db := \<lparr> jobs = [(sample_row 1 ''p'' None ''running'' 0 1)\<lparr> started_at := Some 4140000 \<rparr>,
                             (sample_row 2 ''q'' None ''running'' 0 2)\<lparr> started_at := Some 5400000 \<rparr>,
                             sample_row 3 ''p'' None ''pending'' 0 3],
                     last_rowid = 3, is_open = True \<rparr> \<rparr> :: string jobWorker)
   = init\<lparr> db := \<lparr> jobs = [(sample_row 1 ''p'' None ''failed'' 0 1)
                               \<lparr> started_at := Some 4140000, completed_at := Some 6000001,
                                 error_message := Some ''Job timeout - marked for recovery'' \<rparr>,
                             (sample_row 2 ''q'' None ''running'' 0 2)\<lparr> started_at := Some 5400000 \<rparr>,
                             sample_row 3 ''p'' None ''pending'' 0 3],
                     last_rowid = 3, is_open = True \<rparr> \<rparr>"
  using recoverStuckJobs_effect
    [of "init\<lparr> db := \<lparr> jobs = [(sample_row 1 ''p'' None ''running'' 0 1)\<lparr> started_at := Some 4140000 \<rparr>,
                             (sample_row 2 ''q'' None ''running'' 0 2)\<lparr> started_at := Some 5400000 \<rparr>,
                             sample_row 3 ''p'' None ''pending'' 0 3],
                     last_rowid = 3, is_open = True \<rparr> \<rparr>" sample_rt 6000000 "\<lambda>i. 6000001"]
  by (simp add: sample_row_def sample_rt_def init_def)

section \<open>Retention cleanup\<close>


lemma newest_ids_mem:
  assumes "distinct (map job_id rs)" and "r \<in> set rs"
  shows "job_id r \<in> set (newest_ids p rs) \<longleftrightarrow>
           r \<in> set (take 100 (rev (sort_key completed_at (filter (old_of p) rs))))"
proof -
  let ?K = "take 100 (rev (sort_key completed_at (filter (old_of p) rs)))"
  have sub: "set ?K \<subseteq> set rs"
    using set_take_subset [of 100 "rev (sort_key completed_at (filter (old_of p) rs))"] by auto
  have ids: "set (newest_ids p rs) = job_id ` set ?K"
    by (simp add: newest_ids_def old_of_def [abs_def])
  from assms(1) have inj: "inj_on job_id (set rs)" by (simp add: distinct_map)
  show ?thesis
    unfolding ids using inj sub assms(2) by (auto simp: inj_on_def)
qed

lemma delete_old_alt:
  assumes "distinct (map job_id rs)"
  shows "delete_old p rs =
           filter (\<lambda>r. \<not> old_of p r
                       \<or> r \<in> set (take 100 (rev (sort_key completed_at (filter (old_of p) rs))))) rs"
  unfolding delete_old_def
  by (rule filter_cong [OF refl]) (auto simp: newest_ids_mem [OF assms] old_of_def)

lemma take_rev_sorted_ge:
  fixes f :: "'a \<Rightarrow> 'k::linorder"
  assumes "sorted (map f T)" and "k \<in> set (take n (rev T))" and "x \<in> set T"
    and "x \<notin> set (take n (rev T))"
  shows "f x \<le> f k"
proof -
  let ?m = "length T - n"
  have tk: "take n (rev T) = rev (drop ?m T)" by (simp add: take_rev)
  from assms(2) tk have k: "k \<in> set (drop ?m T)" by simp
  from assms(4) tk have "x \<notin> set (drop ?m T)" by simp
  with assms(3) have x: "x \<in> set (take ?m T)"
    by (metis Un_iff append_take_drop_id set_append)
  have "sorted (map f (take ?m T) @ map f (drop ?m T))"
    using assms(1) by (metis append_take_drop_id map_append)
  then show ?thesis using x k by (auto simp: sorted_append)
qed

lemma length_filter_mem_distinct:
  assumes "distinct xs" and "set K \<subseteq> set xs" and "distinct K"
  shows "length (filter (\<lambda>r. r \<in> set K) xs) = length K"
proof -
  have "distinct (filter (\<lambda>r. r \<in> set K) xs)" using assms(1) by simp
  then have "length (filter (\<lambda>r. r \<in> set K) xs) = card (set (filter (\<lambda>r. r \<in> set K) xs))"
    by (rule distinct_card [symmetric])
  also have "set (filter (\<lambda>r. r \<in> set K) xs) = set K" using assms(2) by auto
  also have "card (set K) = length K" using assms(3) by (simp add: distinct_card)
  finally show ?thesis .
qed

lemma delete_old_retention:
  assumes "distinct (map job_id rs)"
  shows "retention_of p rs (delete_old p rs)"
proof -
  let ?F = "filter (old_of p) rs"
  let ?T = "sort_key completed_at ?F"
  let ?K = "take 100 (rev ?T)"
  have alt: "delete_old p rs = filter (\<lambda>r. \<not> old_of p r \<or> r \<in> set ?K) rs"
    by (rule delete_old_alt [OF assms])
  have drs: "distinct rs" using assms by (simp add: distinct_map)
  have subK: "set ?K \<subseteq> set ?F"
    using set_take_subset [of 100 "rev ?T"] by auto
  have dK: "distinct ?K" using drs by simp
  have 1: "subseq (delete_old p rs) rs" unfolding alt by simp
  have 2: "filter (\<lambda>r. \<not> old_of p r) (delete_old p rs) = filter (\<lambda>r. \<not> old_of p r) rs"
    unfolding alt by (simp add: filter_filter) (rule filter_cong, auto)
  have "filter (old_of p) (delete_old p rs) = filter (\<lambda>r. r \<in> set ?K) ?F"
    unfolding alt by (simp add: filter_filter) (rule filter_cong, auto)
  also have "length \<dots> = length ?K"
    by (rule length_filter_mem_distinct) (use drs subK dK in auto)
  finally have 3: "length (filter (old_of p) (delete_old p rs)) = min 100 (length ?F)"
    by (simp add: min.commute)
  have 4: "completed_at x \<le> completed_at k"
    if "k \<in> set (delete_old p rs)" "x \<in> set rs" "old_of p k" "old_of p x"
       "x \<notin> set (delete_old p rs)" for k x
  proof -
    from that(1,3) have k: "k \<in> set ?K" unfolding alt by auto
    from that(2,4,5) have x: "x \<in> set ?T" "x \<notin> set ?K" unfolding alt by auto
    show ?thesis
      by (rule take_rev_sorted_ge [OF sorted_sort_key k x])
  qed
  show ?thesis
    unfolding retention_of_def
    using 1 2 3 4 by (auto simp: old_of_def [abs_def])
qed


lemma newest_ids_restrict:
  "newest_ids q (filter (\<lambda>r. project_name r = q) rs) = newest_ids q rs"
proof -
  have "filter (\<lambda>r. project_name r = q \<and> finished r) (filter (\<lambda>r. project_name r = q) rs)
        = filter (\<lambda>r. project_name r = q \<and> finished r) rs"
    by (auto simp add: filter_filter intro!: filter_cong)
  then show ?thesis by (simp add: newest_ids_def)
qed

lemma delete_old_restrict:
  "filter (\<lambda>r. project_name r = q) (delete_old q rs)
   = delete_old q (filter (\<lambda>r. project_name r = q) rs)"
  unfolding delete_old_def newest_ids_restrict
  by (auto simp add: filter_filter intro!: filter_cong)

lemma delete_old_other:
  assumes "q \<noteq> p"
  shows "filter (\<lambda>r. project_name r = q) (delete_old p rs)
         = filter (\<lambda>r. project_name r = q) rs"
  unfolding delete_old_def
  using assms by (auto simp add: filter_filter intro!: filter_cong)

lemma fold_delete_old_project:
  assumes "distinct ps"
  shows "filter (\<lambda>r. project_name r = q) (fold delete_old ps rs)
         = (if q \<in> set ps then delete_old q (filter (\<lambda>r. project_name r = q) rs)
            else filter (\<lambda>r. project_name r = q) rs)"
  using assms
proof (induction ps arbitrary: rs)
  case Nil
  then show ?case by simp
next
  case (Cons a ps)
  show ?case
  proof (cases "q = a")
    case True
    with Cons.prems have "q \<notin> set ps" by simp
    with Cons.IH [of "delete_old a rs"] Cons.prems True show ?thesis
      by (simp add: delete_old_restrict)
  next
    case False
    with Cons.IH [of "delete_old a rs"] Cons.prems show ?thesis
      by (simp add: delete_old_other)
  qed
qed

lemma delete_old_subseq: "subseq (delete_old p rs) rs"
  by (simp add: delete_old_def)

lemma fold_delete_old_subseq: "subseq (fold delete_old ps rs) rs"
proof (induction ps arbitrary: rs)
  case Nil
  then show ?case by simp
next
  case (Cons a ps)
  have "subseq (fold delete_old ps (delete_old a rs)) (delete_old a rs)" by (rule Cons.IH)
  then show ?case using delete_old_subseq [of a rs] by (auto intro: subseq_order.trans)
qed

lemma delete_old_Nil: "delete_old q [] = []"
  by (simp add: delete_old_def)

lemma cleanup_all_project:
  "filter (\<lambda>r. project_name r = q) (fold delete_old (remdups (map project_name rs)) rs)
   = delete_old q (filter (\<lambda>r. project_name r = q) rs)"
proof (cases "q \<in> set (map project_name rs)")
  case True
  then show ?thesis by (simp add: fold_delete_old_project)
next
  case False
  then have "filter (\<lambda>r. project_name r = q) rs = []"
    by (auto simp: filter_empty_conv)
  with False show ?thesis by (simp add: fold_delete_old_project delete_old_Nil)
qed

text \<open>
  C4 (as amended). With the store open and ids distinct: for a non-empty project name,
  cleanupOldJobs leaves of the finished jobs of that project the 100 with the greatest
  completed_at (all when there are at most 100), none of the deleted ones being newer
  than a kept one, and leaves every other row (pending and running jobs of the project,
  all jobs of other projects) unchanged and in place. Without a project name the result
  is a subsequence of the table in which, for every project, the rows of that project
  are what retention leaves of them.
\<close>

theorem cleanupOldJobs_retention:
  assumes "is_open d" and "distinct (map job_id (jobs d))"
  shows "(p \<noteq> [] \<longrightarrow>
            (\<exists>d'. cleanupOldJobs (Some p) d = Inr d' \<and> last_rowid d' = last_rowid d
                 \<and> retention_of p (jobs d) (jobs d')))
       \<and> (\<exists>d'. cleanupOldJobs None d = Inr d' \<and> last_rowid d' = last_rowid d
               \<and> subseq (jobs d') (jobs d)
               \<and> (\<forall>q. retention_of q (filter (\<lambda>r. project_name r = q) (jobs d))
                                      (filter (\<lambda>r. project_name r = q) (jobs d'))))"
proof (intro conjI impI)
  assume "p \<noteq> []"
  then show "\<exists>d'. cleanupOldJobs (Some p) d = Inr d' \<and> last_rowid d' = last_rowid d
                 \<and> retention_of p (jobs d) (jobs d')"
    using assms by (simp add: cleanupOldJobs_def delete_old_retention)
next
  have "retention_of q (filter (\<lambda>r. project_name r = q) (jobs d))
          (filter (\<lambda>r. project_name r = q)
             (fold delete_old (remdups (map project_name (jobs d))) (jobs d)))" for q
  proof -
    have "distinct (map job_id (filter (\<lambda>r. project_name r = q) (jobs d)))"
      using assms(2) by (rule distinct_map_filter)
    from delete_old_retention [OF this, of q] show ?thesis
      by (simp add: cleanup_all_project)
  qed
  then show "\<exists>d'. cleanupOldJobs None d = Inr d' \<and> last_rowid d' = last_rowid d
               \<and> subseq (jobs d') (jobs d)
               \<and> (\<forall>q. retention_of q (filter (\<lambda>r. project_name r = q) (jobs d))
                                      (filter (\<lambda>r. project_name r = q) (jobs d')))"
    using assms(1) by (simp add: cleanupOldJobs_def fold_delete_old_subseq)
qed


lemma delete_old_all_old:
  assumes "distinct (map job_id rs)" and "\<forall>r\<in>set rs. project_name r = q \<and> finished r"
  shows "length (delete_old q rs) = min 100 (length rs)"
proof -
  from delete_old_retention [OF assms(1), of q]
  have len: "length (filter (\<lambda>r. project_name r = q \<and> finished r) (delete_old q rs))
             = min 100 (length (filter (\<lambda>r. project_name r = q \<and> finished r) rs))"
    by (simp add: retention_of_def)
  have "set (delete_old q rs) \<subseteq> set rs" by (auto simp: delete_old_def)
  with assms(2) have "\<forall>r\<in>set (delete_old q rs). project_name r = q \<and> finished r" by blast
  then have "filter (\<lambda>r. project_name r = q \<and> finished r) (delete_old q rs) = delete_old q rs"
    by (simp add: filter_id_conv)
  moreover from assms(2) have "filter (\<lambda>r. project_name r = q \<and> finished r) rs = rs"
    by (simp add: filter_id_conv)
  ultimately show ?thesis using len by simp
qed

text \<open>
  C4 as stated fails for the project with the empty name: \<open>if (projectName)\<close> sends the
  call to the branch over all projects, and a job of another project is deleted.
\<close>

theorem cleanupOldJobs_empty_name_counterexample:
  "length (filter (\<lambda>r. project_name r = ''q'') (jobs many_done)) = 101
   \<and> (\<exists>d'. cleanupOldJobs (Some []) many_done = Inr d'
          \<and> length (filter (\<lambda>r. project_name r = ''q'') (jobs d')) = 100)"
proof -
  let ?rs = "jobs many_done"
  have all: "\<forall>r\<in>set ?rs. project_name r = ''q'' \<and> finished r"
    by (auto simp: many_done_def sample_row_def finished_def)
  have "map job_id ?rs = [1..<102]"
    by (simp add: many_done_def sample_row_def o_def)
  then have dist: "distinct (map job_id ?rs)" by simp
  have len: "length ?rs = 101" by (simp add: many_done_def)
  have fil: "filter (\<lambda>r. project_name r = ''q'') ?rs = ?rs"
    using all by (simp add: filter_id_conv)
  have res: "cleanupOldJobs (Some []) many_done
             = Inr (many_done\<lparr> jobs := fold delete_old (remdups (map project_name ?rs)) ?rs \<rparr>)"
    by (simp add: cleanupOldJobs_def many_done_def)
  have "filter (\<lambda>r. project_name r = ''q'')
          (fold delete_old (remdups (map project_name ?rs)) ?rs) = delete_old ''q'' ?rs"
    by (simp add: cleanup_all_project fil)
  moreover have "length (delete_old ''q'' ?rs) = 100"
    using delete_old_all_old [OF dist all] len by simp
  ultimately show ?thesis using res fil len by simp
qed

text \<open>On the store with 101 completed jobs of project q, one is deleted.\<close>

theorem cleanupOldJobs_retention_witness:
  "is_open many_done \<and> distinct (map job_id (jobs many_done))
   \<and> (\<exists>d'. cleanupOldJobs (Some ''q'') many_done = Inr d'
          \<and> length (filter (\<lambda>r. project_name r = ''q'' \<and> finished r) (jobs d')) = 100)"
proof -
  have "map job_id (jobs many_done) = [1..<102]"
    by (simp add: many_done_def sample_row_def o_def)
  then have dist: "distinct (map job_id (jobs many_done))" by simp
  have op: "is_open many_done" by (simp add: many_done_def)
  have all: "\<forall>r\<in>set (jobs many_done). project_name r = ''q'' \<and> finished r"
    by (auto simp: many_done_def sample_row_def finished_def)
  then have "filter (\<lambda>r. project_name r = ''q'' \<and> finished r) (jobs many_done)
             = jobs many_done"
    by (simp add: filter_id_conv)
  moreover have "length (jobs many_done) = 101" by (simp add: many_done_def)
  ultimately show ?thesis
    using cleanupOldJobs_retention [OF op dist, of "''q''"] op dist
    by (auto simp: retention_of_def)
qed

section \<open>Facts about the worker functions\<close>

lemma emit_fields [simp]:
  "db (emit e s) = db s" "projectWorkers (emit e s) = projectWorkers s"
  "isShuttingDown (emit e s) = isShuttingDown s"
  "maxConcurrentProjects (emit e s) = maxConcurrentProjects s"
  "emitted (emit e s) = emitted s @ [e]" "immediates (emit e s) = immediates s"
  by (simp_all add: emit_def)

lemma setImmediate_fields [simp]:
  "db (setImmediate t s) = db s" "projectWorkers (setImmediate t s) = projectWorkers s"
  "isShuttingDown (setImmediate t s) = isShuttingDown s"
  "maxConcurrentProjects (setImmediate t s) = maxConcurrentProjects s"
  "emitted (setImmediate t s) = emitted s" "immediates (setImmediate t s) = immediates s @ [t]"
  by (simp_all add: setImmediate_def)

lemma continue_jobs_fields [simp]:
  "db (continue_jobs p s) = db s" "projectWorkers (continue_jobs p s) = projectWorkers s"
  "isShuttingDown (continue_jobs p s) = isShuttingDown s"
  "maxConcurrentProjects (continue_jobs p s) = maxConcurrentProjects s"
  "emitted (continue_jobs p s) = emitted s"
  by (simp_all add: continue_jobs_def)

lemma reset_worker_fields [simp]:
  "db (reset_worker p s) = db s"
  "isShuttingDown (reset_worker p s) = isShuttingDown s"
  "maxConcurrentProjects (reset_worker p s) = maxConcurrentProjects s"
  "emitted (reset_worker p s) = emitted s" "immediates (reset_worker p s) = immediates s"
  by (simp_all add: reset_worker_def split: option.splits)

lemma reset_worker_lookup:
  "map_of (projectWorkers (reset_worker p s)) q =
     (if q = p then map_option (\<lambda>w. w\<lparr> isRunning := False, currentJobId := None,
                                         currentPromise := None \<rparr>)
                      (map_of (projectWorkers s) p)
      else map_of (projectWorkers s) q)"
  by (simp add: reset_worker_def update_conv' split: option.splits)

lemma job_failed_lookup:
  "map_of (projectWorkers (fst (job_failed now p err s))) q =
     (if q = p then map_option (\<lambda>w. w\<lparr> isRunning := False, currentJobId := None,
                                         currentPromise := None \<rparr>)
                      (map_of (projectWorkers s) p)
      else map_of (projectWorkers s) q)"
  by (simp add: job_failed_def reset_worker_lookup split: option.splits sum.splits)

lemma processProjectJobs_claimed:
  assumes run: "processProjectJobs rt now p s = (s1, e)"
    and idle: "map_of (projectWorkers s) p = Some w0" "currentPromise w0 = None"
    and busy: "map_of (projectWorkers s1) p = Some w" "currentPromise w = Some j"
  shows "e = None \<and> \<not> isShuttingDown s
       \<and> getNextJobForProject rt p (db s) = Inr (Some j)
       \<and> updateJobStatus now (job_id j) ''running'' None (db s) = Inr (db s1)
       \<and> currentJobId w = Some (job_id j) \<and> isRunning w
       \<and> emitted s1 = emitted s @ [JobStarted (job_id j) (project_name j) (session_id j)
                                      (command j)]
       \<and> isShuttingDown s1 = isShuttingDown s"
proof (cases "isShuttingDown s")
  case True
  with run idle have "s1 = s" by (simp add: processProjectJobs_def)
  with idle busy show ?thesis by simp
next
  case False
  note live = this
  have nofail: False if "s1 = fst (job_failed now p err s)" for err
    using that busy idle by (auto simp: job_failed_lookup)
  show ?thesis
  proof (cases "getNextJobForProject rt p (db s)")
    case (Inl err)
    with run idle live have "s1 = fst (job_failed now p err s)"
      by (auto simp: processProjectJobs_def)
    then show ?thesis using nofail by blast
  next
    case (Inr jo)
    show ?thesis
    proof (cases jo)
      case None
      with run idle live Inr have "projectWorkers s1 = AList.delete p (projectWorkers s)"
        by (auto simp: processProjectJobs_def)
      with busy show ?thesis by (simp add: delete_conv')
    next
      case (Some j')
      show ?thesis
      proof (cases "updateJobStatus now (job_id j') ''running'' None (db s)")
        case (Inl err)
        with run idle live Inr Some have "s1 = fst (job_failed now p err s)"
          by (auto simp: processProjectJobs_def)
        then show ?thesis using nofail by blast
      next
        case (Inr d)
        with run idle live \<open>getNextJobForProject rt p (db s) = Inr jo\<close> Some
        have s1: "s1 = emit (JobStarted (job_id j') (project_name j') (session_id j')
                              (command j'))
                        (s\<lparr> db := d,
                           projectWorkers :=
                             AList.update p
                               (w0\<lparr> isRunning := True, currentJobId := Some (job_id j'),
                                   currentPromise := Some j' \<rparr>)
                               (projectWorkers s) \<rparr>)" and e: "e = None"
          by (auto simp: processProjectJobs_def)
        from s1 busy have "j' = j" and "w = w0\<lparr> isRunning := True, currentJobId := Some (job_id j'),
                                   currentPromise := Some j' \<rparr>"
          by (auto simp: update_conv')
        with s1 e live Inr Some \<open>getNextJobForProject rt p (db s) = Inr jo\<close>
        show ?thesis by simp
      qed
    qed
  qed
qed


lemma s_queued_eq:
  "addJob sample_rt 1 ''p'' None ''do'' ''{}'' None 0 init = Inr (1, s_queued)"
  "s_queued = \<lparr> db = \<lparr> jobs = [sample_row 1 ''p'' None ''pending'' 0 1], last_rowid = 1,
                        is_open = True \<rparr>,
                 projectWorkers = [], isShuttingDown = False, maxConcurrentProjects = 10,
                 emitted = [JobQueued 1 ''p'' None ''do...''],
                 immediates = [StartProjectWorker ''p''] \<rparr>"
  by (simp_all add: s_queued_def addJob_def jobDb_addJob_def new_row_def init_def sample_rt_def
                    sample_row_def emit_def setImmediate_def)

lemma s_running_eq:
  "s_running = \<lparr> db = \<lparr> jobs = [(sample_row 1 ''p'' None ''running'' 0 1)
                                    \<lparr> started_at := Some 2 \<rparr>],
                         last_rowid = 1, is_open = True \<rparr>,
                  projectWorkers =
                    [(''p'', \<lparr> projectName = ''p'', isRunning = True, currentJobId = Some 1,
                              currentPromise = Some (sample_row 1 ''p'' None ''pending'' 0 1) \<rparr>)],
                  isShuttingDown = False, maxConcurrentProjects = 10,
                  emitted = [JobQueued 1 ''p'' None ''do...'', JobStarted 1 ''p'' None ''do''],
                  immediates = [] \<rparr>"
  by (simp add: s_running_def s_queued_eq(2) run_task_def startProjectWorker_def
                processProjectJobs_def getNextJobForProject_def select_next_def
                runningSessions_def next_where_def next_order_def limit1_def parse_row_def
                updateJobStatus_def set_status_def emit_def sample_rt_def sample_row_def
                List.map_filter_def)


section \<open>Facts about the handlers of spawnClaude\<close>

lemma ws_send_fields [simp]:
  "settled (ws_send m st) = settled st" "sent (ws_send m st) = sent st @ [m]"
  "capturedSessionId (ws_send m st) = capturedSessionId st"
  "sessionCreatedSent (ws_send m st) = sessionCreatedSent st"
  by (simp_all add: ws_send_def)

lemma handle_line_settled [simp]: "settled (handle_line rt sid l st) = settled st"
  by (simp add: handle_line_def Let_def split: option.splits access.splits)

lemma on_stdout_settled [simp]: "settled (on_stdout rt sid d st) = settled st"
proof -
  have "settled (fold (handle_line rt sid) ls st) = settled st" for ls
    by (induction ls arbitrary: st) simp_all
  then show ?thesis by (simp add: on_stdout_def)
qed

lemma settle_settled:
  "settled (settle out st) = (case settled st of None \<Rightarrow> Some out | Some o' \<Rightarrow> Some o')"
  by (simp add: settle_def split: option.splits)

lemma on_event_settled:
  assumes "settled st = Some out"
  shows "settled (on_event rt sid cmd ev st) = Some out"
  using assms
  by (cases ev) (simp_all add: on_stderr_def on_close_def on_error_def settle_settled Let_def)

lemma fold_on_event_settled:
  assumes "settled st = Some out"
  shows "settled (fold (on_event rt sid cmd) trace st) = Some out"
  using assms by (induction trace arbitrary: st) (simp_all add: on_event_settled)

lemma spawnClaude_spawn_error:
  assumes "build_args rt cmd opts = Some (sid, args)"
  shows "settled (spawnClaude rt cmd opts (Runs (SpawnError m # trace)))
         = Some (Rejected (ProcessError m))"
proof -
  have "settled (on_error m st) = Some (Rejected (ProcessError m))"
    if "settled st = None" for st :: "'a spawn_state"
    using that by (simp add: on_error_def settle_settled)
  then show ?thesis
    using assms by (simp add: spawnClaude_def fold_on_event_settled)
qed

text \<open>
  When the executor throws, while it builds the command line or in \<open>spawn\<close>, the promise
  is left pending and nothing is sent.
\<close>

lemma spawnClaude_executor_throws:
  assumes "build_args rt cmd opts = None \<or> child = SpawnThrows"
  shows "settled (spawnClaude rt cmd opts child) = None"
    and "sent (spawnClaude rt cmd opts child) = []"
  using assms by (auto simp: spawnClaude_def split: option.splits child_process.splits)

lemma build_args_null:
  assumes "get_prop rt opts ''sessionId'' = Throws"
  shows "build_args rt cmd opts = None"
  using assms by (simp add: build_args_def with_prop_def)

text \<open>
  Options, as JSON values, on which the executor throws: null; tools settings whose
  \<open>allowedTools\<close> is a number; tools settings whose \<open>disallowedTools\<close> has a positive
  \<open>length\<close> and cannot be iterated; a session id to resume that is a number. And
  options on which it does not, with the command line they give.
\<close>

lemma build_args_throws:
  "build_args json_rt ''do'' JNull = None"
  "build_args json_rt ''do''
     (JObj [(''toolsSettings'', JObj [(''allowedTools'', JNum 5)])]) = None"
  "build_args json_rt ''do''
     (JObj [(''toolsSettings'', JObj [(''disallowedTools'', JObj [(''length'', JNum 1)])])])
   = None"
  "build_args json_rt ''do'' (JObj [(''sessionId'', JNum 7), (''resume'', JBool True)]) = None"
  by code_simp+

lemma build_args_plan:
  "build_args json_rt ''do''
     (JObj [(''sessionId'', JStr ''s''), (''resume'', JBool True),
            (''permissionMode'', JStr ''plan''),
            (''toolsSettings'', JObj [(''allowedTools'', JArr [JStr ''Read'', JStr ''Edit'']),
                                      (''disallowedTools'', JArr [JStr ''Bash'']),
                                      (''skipPermissions'', JBool True)])])
   = Some (Some (JStr ''s''),
           [''--print'', ''do'', ''--resume'', ''s'', ''--output-format'', ''stream-json'',
            ''--verbose'', ''--permission-mode'', ''plan'',
            ''--allowedTools'', ''Read'', ''--allowedTools'', ''Edit'',
            ''--allowedTools'', ''Task'', ''--allowedTools'', ''exit_plan_mode'',
            ''--allowedTools'', ''TodoRead'', ''--allowedTools'', ''TodoWrite'',
            ''--disallowedTools'', ''Bash''])"
  by code_simp

text \<open>
  The promise is rejected only by the handlers of the child process: with the error of
  its \<open>error\<close> event, or with the message of an exit code other than 0.
\<close>

lemma on_event_rejected:
  assumes "settled (on_event rt sid cmd ev st) = Some (Rejected err)"
  shows "settled st = Some (Rejected err)
       \<or> (\<exists>m. ev = SpawnError m \<and> err = ProcessError m)
       \<or> (\<exists>code. ev = Close code \<and> code \<noteq> Some 0
             \<and> err = ProcessError (''Claude CLI exited with code '' @ show_code code))"
  using assms
  by (cases ev)
     (auto simp: on_stderr_def on_close_def on_error_def settle_settled Let_def
           split: option.splits if_splits)

lemma fold_on_event_rejected:
  assumes "settled (fold (on_event rt sid cmd) trace st) = Some (Rejected err)"
  shows "settled st = Some (Rejected err)
       \<or> (\<exists>m. SpawnError m \<in> set trace \<and> err = ProcessError m)
       \<or> (\<exists>code. Close code \<in> set trace \<and> code \<noteq> Some 0
             \<and> err = ProcessError (''Claude CLI exited with code '' @ show_code code))"
  using assms
proof (induction trace arbitrary: st)
  case Nil
  then show ?case by simp
next
  case (Cons ev trace)
  from Cons.prems have "settled (fold (on_event rt sid cmd) trace (on_event rt sid cmd ev st))
                        = Some (Rejected err)" by simp
  from Cons.IH [OF this] on_event_rejected [of rt sid cmd ev st err]
  show ?case by auto
qed

lemma spawnClaude_rejected:
  assumes "settled (spawnClaude rt cmd opts child) = Some (Rejected err)"
  shows "\<exists>trace. child = Runs trace
           \<and> ((\<exists>m. SpawnError m \<in> set trace \<and> err = ProcessError m)
              \<or> (\<exists>code. Close code \<in> set trace \<and> code \<noteq> Some 0
                    \<and> err = ProcessError (''Claude CLI exited with code '' @ show_code code)))"
proof (cases "build_args rt cmd opts")
  case None
  with assms show ?thesis by (simp add: spawnClaude_def)
next
  case (Some a)
  obtain sid args where a: "a = (sid, args)" by (cases a)
  show ?thesis
  proof (cases child)
    case SpawnThrows
    with assms Some a show ?thesis by (simp add: spawnClaude_def)
  next
    case (Runs trace)
    with assms Some a
    have "settled (fold (on_event rt sid cmd) trace
                     \<lparr> capturedSessionId = sid, sessionCreatedSent = False, sent = [],
                       settled = None \<rparr>) = Some (Rejected err)"
      by (simp add: spawnClaude_def)
    from fold_on_event_rejected [OF this] Runs show ?thesis by simp
  qed
qed
section \<open>Errors of the process adapter at the worker\<close>



lemma updateJobStatus_rows:
  assumes "is_open d"
  shows "updateJobStatus now i st msg d =
           Inr (d\<lparr> jobs := map (\<lambda>r. if job_id r = i then set_status now st msg r else r)
                                 (jobs d) \<rparr>)"
  using assms by (simp add: updateJobStatus_def)

lemma job_failed_open:
  assumes "map_of (projectWorkers s) p = Some w" and "currentJobId w = Some i"
    and "i \<noteq> 0" and "is_open (db s)"
  shows "job_failed now p err s =
           (continue_jobs p
              (reset_worker p
                 (emit (JobFailed i p (message err))
                    (s\<lparr> db := (db s)\<lparr> jobs :=
                          map (\<lambda>r. if job_id r = i
                                   then set_status now ''failed'' (Some (message err)) r
                                   else r)
                              (jobs (db s)) \<rparr> \<rparr>))),
            None)"
  using assms by (simp add: job_failed_def updateJobStatus_rows)

lemma executeJob_rejected:
  assumes "executeJob rt j child = (outs, Some (Rejected err))"
  shows "\<exists>trace. child = Runs trace
           \<and> ((\<exists>m. SpawnError m \<in> set trace \<and> err = ProcessError m)
              \<or> (\<exists>code. Close code \<in> set trace \<and> code \<noteq> Some 0
                    \<and> err = ProcessError (''Claude CLI exited with code '' @ show_code code)))"
proof -
  from assms have "settled (spawnClaude rt (command j) (options j) child) = Some (Rejected err)"
    by (simp add: executeJob_def Let_def)
  then show ?thesis by (rule spawnClaude_rejected)
qed

text \<open>
  C6 (as amended). When the promise of executeJob is rejected while the worker of the
  project awaits it (the job it holds has a non-zero id, which is also its currentJobId)
  and the store is open, the error is the one of the \<open>error\<close> event of the child
  process or the one of an exit code other than 0, and the step of the system that
  resumes processProjectJobs ends without an error: the output of the run is emitted
  and then one job-failed event with the message, the rows of the job get status
  failed, the clock as completed_at and the full message of the error as error_message
  (kept as it was when the message is empty), every other row is unchanged, and the
  worker is reset.
\<close>

theorem adapter_error_recorded:
  assumes "map_of (projectWorkers s) p = Some w"
    and "currentPromise w = Some j" and "currentJobId w = Some (job_id j)"
    and "job_id j \<noteq> 0" and "is_open (db s)"
    and "executeJob rt j child = (outs, Some (Rejected err))"
  shows "\<exists>s'. processProjectJobs_resume now p (Rejected err)
                (s\<lparr> emitted := emitted s @ outs \<rparr>) = (s', None)
           \<and> step rt s s'
           \<and> (\<exists>trace. child = Runs trace
                \<and> ((\<exists>m. SpawnError m \<in> set trace \<and> err = ProcessError m)
                   \<or> (\<exists>code. Close code \<in> set trace \<and> code \<noteq> Some 0
                         \<and> err = ProcessError (''Claude CLI exited with code ''
                                                 @ show_code code))))
           \<and> emitted s' = emitted s @ outs @ [JobFailed (job_id j) p (message err)]
           \<and> length (jobs (db s')) = length (jobs (db s))
           \<and> (\<forall>k<length (jobs (db s)).
                 (job_id (jobs (db s) ! k) \<noteq> job_id j
                    \<longrightarrow> jobs (db s') ! k = jobs (db s) ! k)
               \<and> (job_id (jobs (db s) ! k) = job_id j
                    \<longrightarrow> job_id (jobs (db s') ! k) = job_id j
                      \<and> status (jobs (db s') ! k) = ''failed''
                      \<and> completed_at (jobs (db s') ! k) = Some now
                      \<and> error_message (jobs (db s') ! k) =
                          (if message err \<noteq> [] then Some (message err)
                           else error_message (jobs (db s) ! k))))
           \<and> map_of (projectWorkers s') p =
               Some (w\<lparr> isRunning := False, currentJobId := None, currentPromise := None \<rparr>)"
proof -
  let ?f = "\<lambda>r. if job_id r = job_id j
                then set_status now ''failed'' (Some (message err)) r else r"
  define s0 where "s0 = s\<lparr> emitted := emitted s @ outs \<rparr>"
  define s' where "s' = continue_jobs p
               (reset_worker p
                  (emit (JobFailed (job_id j) p (message err))
                     (s0\<lparr> db := (db s0)\<lparr> jobs := map ?f (jobs (db s0)) \<rparr> \<rparr>)))"
  have w0: "map_of (projectWorkers s0) p = Some w" and op0: "is_open (db s0)"
    and rows0: "jobs (db s0) = jobs (db s)" and ev0: "emitted s0 = emitted s @ outs"
    using assms(1,5) by (simp_all add: s0_def)
  have "processProjectJobs_resume now p (Rejected err) s0 = job_failed now p err s0"
    using w0 assms(2) by (simp add: processProjectJobs_resume_def)
  also have "\<dots> = (s', None)"
    unfolding s'_def by (rule job_failed_open [OF w0 assms(3,4) op0])
  finally have run: "processProjectJobs_resume now p (Rejected err) s0 = (s', None)" .
  from step.finish [OF assms(1,2,6), of now] run have st: "step rt s s'"
    by (simp add: s0_def)
  note cause = executeJob_rejected [OF assms(6)]
  have ev: "emitted s' = emitted s @ outs @ [JobFailed (job_id j) p (message err)]"
    by (simp add: s'_def ev0)
  have rows: "jobs (db s') = map ?f (jobs (db s))"
    by (simp add: s'_def rows0)
  have len: "length (jobs (db s')) = length (jobs (db s))"
    by (simp add: rows)
  have wk: "map_of (projectWorkers s') p =
              Some (w\<lparr> isRunning := False, currentJobId := None, currentPromise := None \<rparr>)"
    using w0 by (simp add: s'_def reset_worker_lookup)
  have row: "\<forall>k<length (jobs (db s)).
             (job_id (jobs (db s) ! k) \<noteq> job_id j \<longrightarrow> jobs (db s') ! k = jobs (db s) ! k)
           \<and> (job_id (jobs (db s) ! k) = job_id j \<longrightarrow>
                job_id (jobs (db s') ! k) = job_id j
              \<and> status (jobs (db s') ! k) = ''failed''
              \<and> completed_at (jobs (db s') ! k) = Some now
              \<and> error_message (jobs (db s') ! k) =
                  (if message err \<noteq> [] then Some (message err)
                   else error_message (jobs (db s) ! k)))"
    by (simp add: rows set_status_fields set_status_times)
  from run [unfolded s0_def] st cause ev len row wk show ?thesis by blast
qed

lemma show_nat_digit: "n < 10 \<Longrightarrow> show_nat n = [''0123456789'' ! n]"
  by (subst show_nat.simps) simp

lemma build_args_sample:
  "build_args sample_rt ''do'' ''{}''
   = Some (None, [''--print'', ''do'', ''--output-format'', ''stream-json'', ''--verbose'',
                  ''--model'', ''sonnet''])"
  by (simp add: build_args_def with_prop_def tool_args_def arg_text_def trim_def
                js_whitespace_def sample_rt_def)

lemma executeJob_exit_code:
  "executeJob sample_rt (sample_row 1 ''p'' None ''pending'' 0 1)
     (Runs [Stdout (''working'' @ [CHR 0x0A]), Close (Some 1)])
   = ([JobOutput 1 ''p'' None (ClaudeOutput ''working''),
       JobOutput 1 ''p'' None (ClaudeComplete (Some 1) True)],
      Some (Rejected (ProcessError ''Claude CLI exited with code 1'')))"
  by (simp add: executeJob_def spawnClaude_def build_args_sample on_stdout_def handle_line_def
                on_close_def settle_def ws_send_def show_code_def show_nat_digit trim_def
                js_whitespace_def sample_row_def)
     (simp add: sample_rt_def)

text \<open>
  The sample run, its process printing a line and ending with exit code 1: the promise
  is rejected with the message of the exit code, and the worker records it.
\<close>

theorem adapter_error_recorded_witness:
  "executeJob sample_rt (sample_row 1 ''p'' None ''pending'' 0 1)
     (Runs [Stdout (''working'' @ [CHR 0x0A]), Close (Some 1)])
   = ([JobOutput 1 ''p'' None (ClaudeOutput ''working''),
       JobOutput 1 ''p'' None (ClaudeComplete (Some 1) True)],
      Some (Rejected (ProcessError ''Claude CLI exited with code 1'')))
   \<and> processProjectJobs_resume 3 ''p''
       (Rejected (ProcessError ''Claude CLI exited with code 1''))
       (s_running\<lparr> emitted := emitted s_running
            @ [JobOutput 1 ''p'' None (ClaudeOutput ''working''),
               JobOutput 1 ''p'' None (ClaudeComplete (Some 1) True)] \<rparr>)
   = (s_running\<lparr> db := \<lparr> jobs = [(sample_row 1 ''p'' None ''failed'' 0 1)
                                        \<lparr> started_at := Some 2, completed_at := Some 3,
                                          error_message := Some ''Claude CLI exited with code 1'' \<rparr>],
                            last_rowid = 1, is_open = True \<rparr>,
                   projectWorkers :=
                     [(''p'', \<lparr> projectName = ''p'', isRunning = False, currentJobId = None,
                               currentPromise = None \<rparr>)],
                   emitted := [JobQueued 1 ''p'' None ''do...'', JobStarted 1 ''p'' None ''do'',
                               JobOutput 1 ''p'' None (ClaudeOutput ''working''),
                               JobOutput 1 ''p'' None (ClaudeComplete (Some 1) True),
                               JobFailed 1 ''p'' ''Claude CLI exited with code 1''],
                   immediates := [ProcessProjectJobs ''p''] \<rparr>, None)
   \<and> step sample_rt s_running
       (s_running\<lparr> db := \<lparr> jobs = [(sample_row 1 ''p'' None ''failed'' 0 1)
                                        \<lparr> started_at := Some 2, completed_at := Some 3,
                                          error_message := Some ''Claude CLI exited with code 1'' \<rparr>],
                            last_rowid = 1, is_open = True \<rparr>,
                   projectWorkers :=
                     [(''p'', \<lparr> projectName = ''p'', isRunning = False, currentJobId = None,
                               currentPromise = None \<rparr>)],
                   emitted := [JobQueued 1 ''p'' None ''do...'', JobStarted 1 ''p'' None ''do'',
                               JobOutput 1 ''p'' None (ClaudeOutput ''working''),
                               JobOutput 1 ''p'' None (ClaudeComplete (Some 1) True),
                               JobFailed 1 ''p'' ''Claude CLI exited with code 1''],
                   immediates := [ProcessProjectJobs ''p''] \<rparr>)"
proof -
  let ?outs = "[JobOutput 1 ''p'' None (ClaudeOutput ''working''),
                JobOutput 1 ''p'' None (ClaudeComplete (Some 1) True)]"
  let ?end = "s_running\<lparr> db := \<lparr> jobs = [(sample_row 1 ''p'' None ''failed'' 0 1)
                                        \<lparr> started_at := Some 2, completed_at := Some 3,
                                          error_message := Some ''Claude CLI exited with code 1'' \<rparr>],
                            last_rowid = 1, is_open = True \<rparr>,
                   projectWorkers :=
                     [(''p'', \<lparr> projectName = ''p'', isRunning = False, currentJobId = None,
                               currentPromise = None \<rparr>)],
                   emitted := [JobQueued 1 ''p'' None ''do...'', JobStarted 1 ''p'' None ''do'',
                               JobOutput 1 ''p'' None (ClaudeOutput ''working''),
                               JobOutput 1 ''p'' None (ClaudeComplete (Some 1) True),
                               JobFailed 1 ''p'' ''Claude CLI exited with code 1''],
                   immediates := [ProcessProjectJobs ''p''] \<rparr>"
  have h1: "map_of (projectWorkers s_running) ''p''
            = Some \<lparr> projectName = ''p'', isRunning = True, currentJobId = Some 1,
                     currentPromise = Some (sample_row 1 ''p'' None ''pending'' 0 1) \<rparr>"
    by (simp add: s_running_eq)
  have h2: "currentPromise \<lparr> projectName = ''p'', isRunning = True, currentJobId = Some 1,
                             currentPromise = Some (sample_row 1 ''p'' None ''pending'' 0 1) \<rparr>
            = Some (sample_row 1 ''p'' None ''pending'' 0 1)"
    by simp
  have h3: "currentJobId \<lparr> projectName = ''p'', isRunning = True, currentJobId = Some 1,
                            currentPromise = Some (sample_row 1 ''p'' None ''pending'' 0 1) \<rparr>
            = Some (job_id (sample_row 1 ''p'' None ''pending'' 0 1))"
    by (simp add: sample_row_def)
  have h4: "job_id (sample_row 1 ''p'' None ''pending'' 0 1) \<noteq> 0"
    by (simp add: sample_row_def)
  have h5: "is_open (db s_running)" by (simp add: s_running_eq)
  have run: "processProjectJobs_resume 3 ''p''
       (Rejected (ProcessError ''Claude CLI exited with code 1''))
       (s_running\<lparr> emitted := emitted s_running @ ?outs \<rparr>) = (?end, None)"
    by (simp add: s_running_eq processProjectJobs_resume_def job_failed_def updateJobStatus_def
                  set_status_def reset_worker_def continue_jobs_def setImmediate_def emit_def
                  sample_row_def)
  from adapter_error_recorded [OF h1 h2 h3 h4 h5 executeJob_exit_code, of 3]
  obtain s' where "processProjectJobs_resume 3 ''p''
       (Rejected (ProcessError ''Claude CLI exited with code 1''))
       (s_running\<lparr> emitted := emitted s_running @ ?outs \<rparr>) = (s', None)"
    and "step sample_rt s_running s'"
    by blast
  with run have "step sample_rt s_running ?end" by simp
  with executeJob_exit_code run show ?thesis by blast
qed

lemma resume_rows:
  "jobs (db (fst (processProjectJobs_resume 3 ''p'' (Rejected (ProcessError m)) s_running)))
   = [(sample_row 1 ''p'' None ''failed'' 0 1)
        \<lparr> started_at := Some 2, completed_at := Some 3,
          error_message := (if m \<noteq> [] then Some m else None) \<rparr>]"
  by (simp add: s_running_eq processProjectJobs_resume_def job_failed_def updateJobStatus_def
                set_status_def sample_row_def)

text \<open>
  C6 as stated fails: no length bounds the stored message, and with the store failing
  the update inside the catch block raises and processProjectJobs ends with that error.
\<close>

theorem adapter_error_not_truncated_counterexample:
  "\<not> (\<exists>N. \<forall>m. \<forall>r\<in>set (jobs (db (fst (processProjectJobs_resume 3 ''p''
                                         (Rejected (ProcessError m)) s_running)))).
                 \<forall>t. error_message r = Some t \<longrightarrow> length t \<le> N)
   \<and> snd (processProjectJobs_resume 3 ''p'' (Rejected (ProcessError ''exit''))
            (s_running\<lparr> db := (db s_running)\<lparr> is_open := False \<rparr> \<rparr>))
       = Some StorageError"
proof
  show "\<not> (\<exists>N. \<forall>m. \<forall>r\<in>set (jobs (db (fst (processProjectJobs_resume 3 ''p''
                                         (Rejected (ProcessError m)) s_running)))).
                 \<forall>t. error_message r = Some t \<longrightarrow> length t \<le> N)"
  proof
    assume "\<exists>N. \<forall>m. \<forall>r\<in>set (jobs (db (fst (processProjectJobs_resume 3 ''p''
                                         (Rejected (ProcessError m)) s_running)))).
                 \<forall>t. error_message r = Some t \<longrightarrow> length t \<le> N"
    then obtain N where
      N: "\<forall>m. \<forall>r\<in>set (jobs (db (fst (processProjectJobs_resume 3 ''p''
                                         (Rejected (ProcessError m)) s_running)))).
                 \<forall>t. error_message r = Some t \<longrightarrow> length t \<le> N"
      by blast
    from N [rule_format, of _ "replicate (Suc N) (CHR ''x'')" "replicate (Suc N) (CHR ''x'')"]
    have "length (replicate (Suc N) (CHR ''x'')) \<le> N"
      unfolding resume_rows by simp
    then show False by simp
  qed
next
  show "snd (processProjectJobs_resume 3 ''p'' (Rejected (ProcessError ''exit''))
            (s_running\<lparr> db := (db s_running)\<lparr> is_open := False \<rparr> \<rparr>))
       = Some StorageError"
    by (simp add: s_running_eq processProjectJobs_resume_def job_failed_def
                  updateJobStatus_def)
qed


section \<open>A process that cannot be started\<close>

lemma select_next_mem:
  assumes "select_next p rs = Some r"
  shows "r \<in> set rs"
  using select_next_Some [OF assms] by (simp add: claim_candidate_def)

lemma getNextJobForProject_row:
  assumes "getNextJobForProject rt p d = Inr (Some j)"
  shows "\<exists>r. select_next p (jobs d) = Some r \<and> parse_row rt r = Inr j \<and> is_open d"
  using assms
  by (auto simp: getNextJobForProject_def split: if_splits option.splits sum.splits)

text \<open>
  C9 (as amended). When a call of processProjectJobs on an idle worker leaves it
  awaiting a job, that job has a row with status running in the store: it is marked
  running before its process is spawned. If the child process then reports by its
  \<open>error\<close> event that it could not be started, the promise of executeJob is rejected
  with that error; and in whatever state the worker still awaits the job when the
  error reaches it, provided the store is open there, the step that resumes
  processProjectJobs ends without error, keeps the rows of the store in their places,
  and leaves every row of the job failed.
\<close>

theorem spawn_failure_after_running:
  assumes "processProjectJobs rt now p s = (s1, e)"
    and "map_of (projectWorkers s) p = Some w0" and "currentPromise w0 = None"
    and "map_of (projectWorkers s1) p = Some w1" and "currentPromise w1 = Some j"
    and "build_args rt (command j) (options j) = Some (sid, args)"
    and "map_of (projectWorkers s2) p = Some w2" and "currentPromise w2 = Some j"
    and "currentJobId w2 = Some (job_id j)"
    and "job_id j \<noteq> 0" and "is_open (db s2)"
  shows "(\<exists>r\<in>set (jobs (db s1)). job_id r = job_id j \<and> status r = ''running'')
       \<and> currentJobId w1 = Some (job_id j)
       \<and> snd (executeJob rt j (Runs (SpawnError m # trace)))
           = Some (Rejected (ProcessError m))
       \<and> (\<exists>s3. processProjectJobs_resume now' p (Rejected (ProcessError m))
                  (s2\<lparr> emitted := emitted s2
                         @ fst (executeJob rt j (Runs (SpawnError m # trace))) \<rparr>)
                = (s3, None)
              \<and> step rt s2 s3
              \<and> map job_id (jobs (db s3)) = map job_id (jobs (db s2))
              \<and> (\<forall>r\<in>set (jobs (db s3)). job_id r = job_id j \<longrightarrow> status r = ''failed''))"
proof -
  from processProjectJobs_claimed [OF assms(1-5)]
  have nxt: "getNextJobForProject rt p (db s) = Inr (Some j)"
    and upd: "updateJobStatus now (job_id j) ''running'' None (db s) = Inr (db s1)"
    and cur: "currentJobId w1 = Some (job_id j)"
    by simp_all
  from getNextJobForProject_row [OF nxt] obtain r where
    r: "select_next p (jobs (db s)) = Some r" "parse_row rt r = Inr j" and op: "is_open (db s)"
    by blast
  have mem: "r \<in> set (jobs (db s))" by (rule select_next_mem [OF r(1)])
  have id: "job_id r = job_id j" using parse_row_fields(1) [OF r(2)] by simp
  from upd updateJobStatus_rows [OF op, of now "job_id j" "''running''" None]
  have eq1: "db s1 = (db s)\<lparr> jobs := map (\<lambda>x. if job_id x = job_id j
                                              then set_status now ''running'' None x else x)
                                       (jobs (db s)) \<rparr>"
    by simp
  have rows1:
    "jobs (db s1) = map (\<lambda>x. if job_id x = job_id j then set_status now ''running'' None x else x)
                        (jobs (db s))"
    by (simp add: eq1)
  have "set_status now ''running'' None r \<in> set (jobs (db s1))"
    unfolding rows1 using mem id by force
  then have 1: "\<exists>x\<in>set (jobs (db s1)). job_id x = job_id j \<and> status x = ''running''"
    using id by (intro bexI [of _ "set_status now ''running'' None r"])
                (simp_all add: set_status_fields)
  define outs where "outs = fst (executeJob rt j (Runs (SpawnError m # trace)))"
  have 2: "snd (executeJob rt j (Runs (SpawnError m # trace))) = Some (Rejected (ProcessError m))"
    using spawnClaude_spawn_error [OF assms(6)] by (simp add: executeJob_def Let_def)
  then have ex: "executeJob rt j (Runs (SpawnError m # trace))
                 = (outs, Some (Rejected (ProcessError m)))"
    by (simp add: outs_def prod_eq_iff)
  let ?g = "\<lambda>x. if job_id x = job_id j
                then set_status now' ''failed'' (Some (message (ProcessError m))) x else x"
  define s0 where "s0 = s2\<lparr> emitted := emitted s2 @ outs \<rparr>"
  have w0: "map_of (projectWorkers s0) p = Some w2" and op0: "is_open (db s0)"
    and rows0: "jobs (db s0) = jobs (db s2)"
    using assms(7,11) by (simp_all add: s0_def)
  have "processProjectJobs_resume now' p (Rejected (ProcessError m)) s0
        = job_failed now' p (ProcessError m) s0"
    using w0 assms(8) by (simp add: processProjectJobs_resume_def)
  with job_failed_open [OF w0 assms(9,10) op0, of now' "ProcessError m"]
  obtain s3 where s3: "processProjectJobs_resume now' p (Rejected (ProcessError m)) s0 = (s3, None)"
    and rows3: "jobs (db s3) = map ?g (jobs (db s0))"
    by simp
  from step.finish [OF assms(7,8) ex, of now'] s3 have st: "step rt s2 s3"
    by (simp add: s0_def)
  have ids: "map job_id (jobs (db s3)) = map job_id (jobs (db s2))"
    unfolding rows3 rows0 by (simp add: set_status_fields comp_def)
  have 4: "status x = ''failed''" if "x \<in> set (jobs (db s3))" "job_id x = job_id j" for x
  proof -
    from that(1) obtain z where z: "z \<in> set (jobs (db s0))" "x = ?g z"
      unfolding rows3 by auto
    with that(2) have "job_id z = job_id j" by (simp add: set_status_fields split: if_splits)
    with z(2) show ?thesis by (simp add: set_status_fields)
  qed
  from 1 cur 2 s3 [unfolded s0_def outs_def] st ids 4 show ?thesis by blast
qed

lemma reachable_s_running: "reachable sample_rt s_running"
proof -
  have "step sample_rt init s_queued"
    by (rule step.submit [OF s_queued_eq(1)])
  with reach_init have q: "reachable sample_rt s_queued" by (rule reach_step)
  have "StartProjectWorker ''p'' \<in> set (immediates s_queued)"
    by (simp add: s_queued_eq(2))
  then have "step sample_rt s_queued s_running"
    unfolding s_running_def by (rule step.immediate)
  with q show ?thesis by (rule reach_step)
qed

lemma executeJob_spawn_error:
  "executeJob sample_rt (sample_row 1 ''p'' None ''pending'' 0 1)
     (Runs [SpawnError ''spawn claude ENOENT''])
   = ([JobOutput 1 ''p'' None (ClaudeError ''spawn claude ENOENT'')],
      Some (Rejected (ProcessError ''spawn claude ENOENT'')))"
  by (simp add: executeJob_def spawnClaude_def build_args_sample on_error_def settle_def
                ws_send_def sample_row_def)

lemma s_spawn_failed_rows:
  "map (\<lambda>r. (job_id r, status r)) (jobs (db s_spawn_failed)) = [(1, ''failed'')]"
  by (simp add: s_spawn_failed_def s_running_eq processProjectJobs_resume_def job_failed_def
                updateJobStatus_def set_status_def sample_row_def)

text \<open>
  C9 as stated fails: the sample run reaches a state in which the job is stored as
  running, and the process of that job cannot be started; the next step stores it as
  failed.
\<close>

theorem spawn_failure_running_window_counterexample:
  "reachable sample_rt s_running
   \<and> map (\<lambda>r. (job_id r, status r)) (jobs (db s_running)) = [(1, ''running'')]
   \<and> executeJob sample_rt (sample_row 1 ''p'' None ''pending'' 0 1)
        (Runs [SpawnError ''spawn claude ENOENT''])
      = ([JobOutput 1 ''p'' None (ClaudeError ''spawn claude ENOENT'')],
         Some (Rejected (ProcessError ''spawn claude ENOENT'')))
   \<and> step sample_rt s_running s_spawn_failed
   \<and> map (\<lambda>r. (job_id r, status r)) (jobs (db s_spawn_failed)) = [(1, ''failed'')]"
proof -
  have "map_of (projectWorkers s_running) ''p''
        = Some \<lparr> projectName = ''p'', isRunning = True, currentJobId = Some 1,
                 currentPromise = Some (sample_row 1 ''p'' None ''pending'' 0 1) \<rparr>"
    by (simp add: s_running_eq)
  then have "step sample_rt s_running s_spawn_failed"
    unfolding s_spawn_failed_def
    by (rule step.finish [OF _ _ executeJob_spawn_error]) simp
  moreover have "map (\<lambda>r. (job_id r, status r)) (jobs (db s_running)) = [(1, ''running'')]"
    by (simp add: s_running_eq sample_row_def)
  ultimately show ?thesis
    using reachable_s_running executeJob_spawn_error s_spawn_failed_rows by simp
qed

text \<open>
  The sample run, from the idle worker on; the error reaches the worker in the state
  the claim left.
\<close>

theorem spawn_failure_after_running_witness:
  "processProjectJobs sample_rt 2 ''p''
     (s_queued\<lparr> immediates := [],
                projectWorkers := [(''p'', \<lparr> projectName = ''p'', isRunning = False,
                                            currentJobId = None, currentPromise = None \<rparr>)] \<rparr>)
   = (s_running, None)
   \<and> map status (jobs (db s_running)) = [''running'']
   \<and> executeJob sample_rt (sample_row 1 ''p'' None ''pending'' 0 1)
        (Runs [SpawnError ''spawn claude ENOENT'', Close (Some (- 2))])
      = ([JobOutput 1 ''p'' None (ClaudeError ''spawn claude ENOENT''),
          JobOutput 1 ''p'' None (ClaudeComplete (Some (- 2)) True)],
         Some (Rejected (ProcessError ''spawn claude ENOENT'')))
   \<and> (\<exists>s3. step sample_rt s_running s3
           \<and> processProjectJobs_resume 3 ''p''
                (Rejected (ProcessError ''spawn claude ENOENT''))
                (s_running\<lparr> emitted := emitted s_running
                     @ [JobOutput 1 ''p'' None (ClaudeError ''spawn claude ENOENT''),
                        JobOutput 1 ''p'' None (ClaudeComplete (Some (- 2)) True)] \<rparr>)
              = (s3, None)
           \<and> map (\<lambda>r. (job_id r, status r)) (jobs (db s3)) = [(1, ''failed'')])"
proof -
  let ?j = "sample_row 1 ''p'' None ''pending'' 0 1"
  let ?outs = "[JobOutput 1 ''p'' None (ClaudeError ''spawn claude ENOENT''),
                JobOutput 1 ''p'' None (ClaudeComplete (Some (- 2)) True)]"
  have run: "processProjectJobs sample_rt 2 ''p''
     (s_queued\<lparr> immediates := [],
                projectWorkers := [(''p'', \<lparr> projectName = ''p'', isRunning = False,
                                            currentJobId = None, currentPromise = None \<rparr>)] \<rparr>)
   = (s_running, None)"
    by (simp add: s_running_eq s_queued_eq(2)
                processProjectJobs_def getNextJobForProject_def select_next_def
                runningSessions_def next_where_def next_order_def limit1_def parse_row_def
                updateJobStatus_def set_status_def emit_def sample_rt_def sample_row_def
                List.map_filter_def)
  have w: "map_of (projectWorkers s_running) ''p''
        = Some \<lparr> projectName = ''p'', isRunning = True, currentJobId = Some 1,
                 currentPromise = Some ?j \<rparr>"
    by (simp add: s_running_eq)
  have c2: "map status (jobs (db s_running)) = [''running'']"
    by (simp add: s_running_eq sample_row_def)
  have c3: "executeJob sample_rt ?j
              (Runs [SpawnError ''spawn claude ENOENT'', Close (Some (- 2))])
            = (?outs, Some (Rejected (ProcessError ''spawn claude ENOENT'')))"
    by (simp add: executeJob_def spawnClaude_def build_args_sample on_error_def on_close_def
                  settle_def ws_send_def sample_row_def)
  have c4: "map (\<lambda>r. (job_id r, status r))
              (jobs (db (fst (processProjectJobs_resume 3 ''p''
                                (Rejected (ProcessError ''spawn claude ENOENT''))
                                (s_running\<lparr> emitted := emitted s_running @ ?outs \<rparr>)))))
            = [(1, ''failed'')]"
    by (simp add: s_running_eq processProjectJobs_resume_def job_failed_def updateJobStatus_def
                  set_status_def sample_row_def)
  have h2: "map_of (projectWorkers
                    (s_queued\<lparr> immediates := [],
                       projectWorkers := [(''p'', \<lparr> projectName = ''p'', isRunning = False,
                                            currentJobId = None, currentPromise = None \<rparr>)] \<rparr>))
              ''p''
            = Some \<lparr> projectName = ''p'', isRunning = False, currentJobId = None,
                     currentPromise = None \<rparr>"
    by simp
  have h3: "currentPromise \<lparr> projectName = ''p'', isRunning = False, currentJobId = None,
                             currentPromise = (None :: string job option) \<rparr> = None"
    by simp
  have h5: "currentPromise \<lparr> projectName = ''p'', isRunning = True, currentJobId = Some 1,
                 currentPromise = Some ?j \<rparr> = Some ?j"
    by simp
  have h6: "build_args sample_rt (command ?j) (options ?j)
            = Some (None, [''--print'', ''do'', ''--output-format'', ''stream-json'',
                           ''--verbose'', ''--model'', ''sonnet''])"
    by (simp add: sample_row_def build_args_sample)
  have h9: "currentJobId \<lparr> projectName = ''p'', isRunning = True, currentJobId = Some 1,
                 currentPromise = Some ?j \<rparr> = Some (job_id ?j)"
    by (simp add: sample_row_def)
  have h10: "job_id ?j \<noteq> 0"
    by (simp add: sample_row_def)
  have h11: "is_open (db s_running)" by (simp add: s_running_eq)
  from spawn_failure_after_running
    [OF run h2 h3 w h5 h6 w h5 h9 h10 h11,
     of "''spawn claude ENOENT''" "[Close (Some (- 2))]" 3, unfolded c3 fst_conv snd_conv]
  obtain s3 where
    res: "processProjectJobs_resume 3 ''p'' (Rejected (ProcessError ''spawn claude ENOENT''))
       (s_running\<lparr> emitted := emitted s_running @ ?outs \<rparr>) = (s3, None)"
    and st: "step sample_rt s_running s3"
    by blast
  from c4 have rows: "map (\<lambda>r. (job_id r, status r)) (jobs (db s3)) = [(1, ''failed'')]"
    unfolding res fst_conv .
  show ?thesis
    by (intro conjI exI [of _ s3]) (rule run c2 c3 st res rows)+
qed
section \<open>Lines of output\<close>


lemma handle_line_payload:
  "filter payload (sent (handle_line rt sid l st))
   = filter payload (sent st)
     @ [case JSON_parse rt l of
          None \<Rightarrow> ClaudeOutput l
        | Some v \<Rightarrow> (case get_prop rt v ''session_id'' of
                       Throws \<Rightarrow> ClaudeOutput l
                     | Falsy \<Rightarrow> ClaudeResponse v
                     | Truthy x \<Rightarrow> ClaudeResponse v)]"
  by (simp add: handle_line_def Let_def payload_def split: option.splits access.splits)

lemma fold_handle_line_payload:
  "filter payload (sent (fold (handle_line rt sid) ls st))
   = filter payload (sent st)
     @ map (\<lambda>l. case JSON_parse rt l of
                   None \<Rightarrow> ClaudeOutput l
                 | Some v \<Rightarrow> (case get_prop rt v ''session_id'' of
                                Throws \<Rightarrow> ClaudeOutput l
                              | Falsy \<Rightarrow> ClaudeResponse v
                              | Truthy x \<Rightarrow> ClaudeResponse v)) ls"
proof (induction ls arbitrary: st)
  case Nil
  then show ?case by simp
next
  case (Cons l ls)
  show ?case
    by (simp only: fold_simps Cons.IH handle_line_payload list.map append_assoc append.simps)
qed

text \<open>
  C7 (as amended). For a chunk of output, the handler sends, in order, exactly one
  message for every line of the chunk that has a character other than white space: the
  parsed value as a structured response when the line parses (to a value whose
  session_id can be read), the line itself as raw text otherwise. Lines of white space
  only are skipped. The handler does not settle the promise: no line fails the job.
\<close>

theorem on_stdout_delivers:
  "filter payload (sent (on_stdout rt sid rawOutput st))
   = filter payload (sent st)
     @ map (\<lambda>l. case JSON_parse rt l of
                   None \<Rightarrow> ClaudeOutput l
                 | Some v \<Rightarrow> (case get_prop rt v ''session_id'' of
                                Throws \<Rightarrow> ClaudeOutput l
                              | Falsy \<Rightarrow> ClaudeResponse v
                              | Truthy x \<Rightarrow> ClaudeResponse v))
           (filter (\<lambda>l. trim l \<noteq> []) (split_lines rawOutput))
   \<and> settled (on_stdout rt sid rawOutput st) = settled st"
  by (simp add: on_stdout_def fold_handle_line_payload on_stdout_settled [unfolded on_stdout_def])

text \<open>A chunk of three lines: a record that opens the session, free text, a record.\<close>

theorem on_stdout_delivers_witness:
  "sent (on_stdout sample_rt None
           (''{\"session_id\":\"s1\"}'' @ [CHR 0x0A] @ ''plain text'' @ [CHR 0x0A] @ ''{}'' @ [CHR 0x0A])
           \<lparr> capturedSessionId = None, sessionCreatedSent = False, sent = [], settled = None \<rparr>)
   = [SessionCreated ''s1'', ClaudeResponse ''{\"session_id\":\"s1\"}'',
      ClaudeOutput ''plain text'', ClaudeResponse ''{}'']"
  using on_stdout_delivers
    [of sample_rt None
        "''{\"session_id\":\"s1\"}'' @ [CHR 0x0A] @ ''plain text'' @ [CHR 0x0A] @ ''{}'' @ [CHR 0x0A]"
        "\<lparr> capturedSessionId = None, sessionCreatedSent = False, sent = [], settled = None \<rparr>"]
  by (simp add: on_stdout_def handle_line_def ws_send_def trim_def js_whitespace_def sample_rt_def)

text \<open>
  C7 as stated fails: a line of three blanks does not parse and is dropped; only the
  other line of the chunk is delivered.
\<close>

theorem on_stdout_blank_line_counterexample:
  "split_lines (''   '' @ [CHR 0x0A] @ ''x'') = [''   '', ''x'']
   \<and> JSON_parse sample_rt ''   '' = None
   \<and> sent (on_stdout sample_rt None (''   '' @ [CHR 0x0A] @ ''x'')
             \<lparr> capturedSessionId = None, sessionCreatedSent = False, sent = [], settled = None \<rparr>)
       = [ClaudeOutput ''x'']"
  by (simp add: on_stdout_def handle_line_def ws_send_def trim_def js_whitespace_def sample_rt_def)

section \<open>getJobStatus\<close>

text \<open>
  C10. getJobStatus is a total function into snapshots (it has no error result): when
  getActiveJobs succeeds the snapshot holds the active jobs, the keys of the worker
  map, its size and the configured cap; when getActiveJobs raises, whatever the error,
  the snapshot is the default one with the configured cap.
\<close>

theorem getJobStatus_never_raises:
  "(\<forall>active. getActiveJobs rt (db s) = Inr active \<longrightarrow>
        getJobStatus rt s =
          \<lparr> activeJobs = active, workingProjects = map fst (projectWorkers s),
            totalWorkers = length (projectWorkers s),
            status_maxConcurrentProjects = maxConcurrentProjects s \<rparr>)
   \<and> (\<forall>e. getActiveJobs rt (db s) = Inl e \<longrightarrow>
        getJobStatus rt s =
          \<lparr> activeJobs = [], workingProjects = [], totalWorkers = 0,
            status_maxConcurrentProjects = maxConcurrentProjects s \<rparr>)"
  by (simp add: getJobStatus_def)

text \<open>The store closed, the store open, and a stored text that does not parse.\<close>

theorem getJobStatus_never_raises_witness:
  "getJobStatus sample_rt
     (init\<lparr> db := \<lparr> jobs = [sample_row 1 ''p'' None ''pending'' 0 1],
                     last_rowid = 1, is_open = False \<rparr> \<rparr>)
   = \<lparr> activeJobs = [], workingProjects = [], totalWorkers = 0,
       status_maxConcurrentProjects = 10 \<rparr>
   \<and> getJobStatus sample_rt
     (init\<lparr> db := \<lparr> jobs = [sample_row 1 ''p'' None ''pending'' 0 1],
                     last_rowid = 1, is_open = True \<rparr> \<rparr>)
   = \<lparr> activeJobs = [sample_row 1 ''p'' None ''pending'' 0 1], workingProjects = [],
       totalWorkers = 0, status_maxConcurrentProjects = 10 \<rparr>
   \<and> getJobStatus sample_rt
     (init\<lparr> db := \<lparr> jobs = [(sample_row 1 ''p'' None ''pending'' 0 1)\<lparr> options := ''not json'' \<rparr>],
                     last_rowid = 1, is_open = True \<rparr> \<rparr>)
   = \<lparr> activeJobs = [], workingProjects = [], totalWorkers = 0,
       status_maxConcurrentProjects = 10 \<rparr>"
  using getJobStatus_never_raises
    [of sample_rt "init\<lparr> db := \<lparr> jobs = [sample_row 1 ''p'' None ''pending'' 0 1],
                     last_rowid = 1, is_open = False \<rparr> \<rparr>"]
  by (simp add: getJobStatus_def getActiveJobs_def init_def sample_row_def sample_rt_def
                parse_row_def active_order_def)


section \<open>Session exclusivity\<close>


lemma session_exclusiveI:
  assumes "\<And>r1 r2 s. r1 \<in> set rs \<Longrightarrow> r2 \<in> set rs \<Longrightarrow> status r1 = ''running''
             \<Longrightarrow> status r2 = ''running'' \<Longrightarrow> project_name r1 = project_name r2
             \<Longrightarrow> session_id r1 = Some s \<Longrightarrow> session_id r2 = Some s \<Longrightarrow> r1 = r2"
  shows "session_exclusive rs"
  unfolding session_exclusive_def using assms by (metis not_None_eq)

lemma session_exclusiveD:
  assumes "session_exclusive rs" "r1 \<in> set rs" "r2 \<in> set rs"
    "status r1 = ''running''" "status r2 = ''running''"
    "project_name r1 = project_name r2" "session_id r1 = Some s" "session_id r2 = Some s"
  shows "r1 = r2"
  using assms unfolding session_exclusive_def by (metis option.distinct(1))

lemma rows_invI:
  assumes "distinct (map job_id rs)"
    and "\<And>r. r \<in> set rs \<Longrightarrow> 0 < job_id r \<and> job_id r \<le> n"
    and "\<And>r. r \<in> set rs \<Longrightarrow> status r = ''running'' \<Longrightarrow> started_at r \<noteq> None"
    and "session_exclusive rs"
  shows "rows_inv n rs"
  unfolding rows_inv_def using assms by blast

lemma rows_invD:
  assumes "rows_inv n rs"
  shows "distinct (map job_id rs)"
    and "\<And>r. r \<in> set rs \<Longrightarrow> 0 < job_id r \<and> job_id r \<le> n"
    and "\<And>r. r \<in> set rs \<Longrightarrow> status r = ''running'' \<Longrightarrow> started_at r \<noteq> None"
    and "session_exclusive rs"
  using assms unfolding rows_inv_def by blast+

lemma session_exclusive_subset:
  assumes "session_exclusive rs" and "set rs' \<subseteq> set rs"
  shows "session_exclusive rs'"
proof (rule session_exclusiveI)
  fix r1 r2 s
  assume a: "r1 \<in> set rs'" "r2 \<in> set rs'" and b: "status r1 = ''running''"
    "status r2 = ''running''" "project_name r1 = project_name r2"
    "session_id r1 = Some s" "session_id r2 = Some s"
  from a assms(2) have "r1 \<in> set rs" "r2 \<in> set rs" by blast+
  then show "r1 = r2" using b by (rule session_exclusiveD [OF assms(1)])
qed

lemma rows_inv_filter:
  assumes "rows_inv n rs"
  shows "rows_inv n (filter P rs)"
proof (rule rows_invI)
  show "distinct (map job_id (filter P rs))"
    using rows_invD(1) [OF assms] by (rule distinct_map_filter)
  show "0 < job_id r \<and> job_id r \<le> n" if "r \<in> set (filter P rs)" for r
    using that rows_invD(2) [OF assms, of r] by simp
  show "started_at r \<noteq> None" if "r \<in> set (filter P rs)" "status r = ''running''" for r
    using that rows_invD(3) [OF assms, of r] by simp
  show "session_exclusive (filter P rs)"
    by (rule session_exclusive_subset [OF rows_invD(4) [OF assms]]) simp
qed

lemma rows_inv_delete_old: "rows_inv n rs \<Longrightarrow> rows_inv n (delete_old p rs)"
  unfolding delete_old_def by (rule rows_inv_filter)

lemma rows_inv_fold_delete_old: "rows_inv n rs \<Longrightarrow> rows_inv n (fold delete_old ps rs)"
  by (induction ps arbitrary: rs) (simp_all add: rows_inv_delete_old)

lemma store_inv_cleanupOldJobs:
  assumes "store_inv d" and "cleanupOldJobs project d = Inr d'"
  shows "store_inv d'"
proof -
  from assms(2) have "d' = d\<lparr> jobs := delete_old (the project) (jobs d) \<rparr>
      \<or> d' = d\<lparr> jobs := fold delete_old (remdups (map project_name (jobs d))) (jobs d) \<rparr>"
    by (auto simp: cleanupOldJobs_def split: if_splits option.splits)
  then show ?thesis
    using assms(1) rows_inv_delete_old rows_inv_fold_delete_old
    by (auto simp: store_inv_def)
qed


lemma rows_inv_append_pending:
  assumes inv: "rows_inv n rs" and new: "job_id r = Suc n" "status r = ''pending''"
  shows "rows_inv (Suc n) (rs @ [r])"
proof (rule rows_invI)
  have "job_id r \<notin> job_id ` set rs"
    using rows_invD(2) [OF inv] new(1) by fastforce
  then show "distinct (map job_id (rs @ [r]))"
    using rows_invD(1) [OF inv] by simp
  show "0 < job_id x \<and> job_id x \<le> Suc n" if "x \<in> set (rs @ [r])" for x
    using that rows_invD(2) [OF inv, of x] new(1) by auto
  show "started_at x \<noteq> None" if "x \<in> set (rs @ [r])" "status x = ''running''" for x
    using that rows_invD(3) [OF inv, of x] new(2) by auto
  show "session_exclusive (rs @ [r])"
  proof (rule session_exclusiveI)
    fix r1 r2 s
    assume a: "r1 \<in> set (rs @ [r])" "r2 \<in> set (rs @ [r])" and b: "status r1 = ''running''"
      "status r2 = ''running''" "project_name r1 = project_name r2"
      "session_id r1 = Some s" "session_id r2 = Some s"
    from a b(1,2) new(2) have "r1 \<in> set rs" "r2 \<in> set rs" by auto
    then show "r1 = r2" using b by (rule session_exclusiveD [OF rows_invD(4) [OF inv]])
  qed
qed

lemma store_inv_addJob:
  assumes "store_inv d" and "jobDb_addJob rt now p sid cmd opts uid prio d = Inr (i, d')"
  shows "store_inv d'"
proof -
  from jobDb_addJob_result [OF assms(2)] obtain t where i: "i = Suc (last_rowid d)"
    and d': "d' = d\<lparr> jobs := jobs d @ [new_row now p sid cmd t uid prio i],
                       last_rowid := i \<rparr>"
    by blast
  have "rows_inv (Suc (last_rowid d)) (jobs d @ [new_row now p sid cmd t uid prio i])"
    by (rule rows_inv_append_pending)
       (use assms(1) i in \<open>simp_all add: store_inv_def new_row_fields\<close>)
  then show ?thesis by (simp add: d' i store_inv_def)
qed

lemma rows_inv_map_quiet:
  assumes inv: "rows_inv n rs"
    and id: "\<And>r. job_id (f r) = job_id r"
    and quiet: "\<And>r. status (f r) = ''running'' \<Longrightarrow> f r = r"
  shows "rows_inv n (map f rs)"
proof (rule rows_invI)
  have "map job_id (map f rs) = map job_id rs" by (simp add: id)
  then show "distinct (map job_id (map f rs))"
    using rows_invD(1) [OF inv] by (simp del: map_map)
  have run: "x \<in> set rs" if "x \<in> set (map f rs)" "status x = ''running''" for x
  proof -
    from that(1) obtain r where r: "r \<in> set rs" "x = f r" by auto
    with that(2) quiet [of r] show ?thesis by simp
  qed
  show "0 < job_id x \<and> job_id x \<le> n" if "x \<in> set (map f rs)" for x
  proof -
    from that obtain r where r: "r \<in> set rs" "x = f r" by auto
    with rows_invD(2) [OF inv, of r] id [of r] show ?thesis by simp
  qed
  show "started_at x \<noteq> None" if "x \<in> set (map f rs)" "status x = ''running''" for x
    using run [OF that] that(2) rows_invD(3) [OF inv, of x] by simp
  show "session_exclusive (map f rs)"
  proof (rule session_exclusiveI)
    fix r1 r2 s
    assume a: "r1 \<in> set (map f rs)" "r2 \<in> set (map f rs)" and b: "status r1 = ''running''"
      "status r2 = ''running''" "project_name r1 = project_name r2"
      "session_id r1 = Some s" "session_id r2 = Some s"
    from run [OF a(1) b(1)] run [OF a(2) b(2)] show "r1 = r2"
      using b by (rule session_exclusiveD [OF rows_invD(4) [OF inv]])
  qed
qed

lemma store_inv_update_quiet:
  assumes "store_inv d" and "st \<noteq> ''running''"
    and "updateJobStatus now i st msg d = Inr d'"
  shows "store_inv d'"
proof -
  from assms(3) have d': "d' = d\<lparr> jobs := map (\<lambda>r. if job_id r = i
                                       then set_status now st msg r else r) (jobs d) \<rparr>"
    by (auto simp: updateJobStatus_def split: if_splits)
  have "rows_inv (last_rowid d)
          (map (\<lambda>r. if job_id r = i then set_status now st msg r else r) (jobs d))"
  proof (rule rows_inv_map_quiet)
    show "rows_inv (last_rowid d) (jobs d)" using assms(1) by (simp add: store_inv_def)
    show "job_id (if job_id r = i then set_status now st msg r else r) = job_id r" for r
      by (simp add: set_status_fields)
    show "(if job_id r = i then set_status now st msg r else r) = r"
      if "status (if job_id r = i then set_status now st msg r else r) = ''running''" for r
      using that assms(2) by (simp add: set_status_fields split: if_splits)
  qed
  then show ?thesis by (simp add: d' store_inv_def)
qed

lemma store_inv_claim:
  assumes inv: "store_inv d" and sel: "select_next p (jobs d) = Some r"
    and upd: "updateJobStatus now (job_id r) ''running'' None d = Inr d'"
  shows "store_inv d'"
proof -
  let ?f = "\<lambda>x. if job_id x = job_id r then set_status now ''running'' None x else x"
  let ?rs = "jobs d"
  have rinv: "rows_inv (last_rowid d) ?rs" using inv by (simp add: store_inv_def)
  from upd have d': "d' = d\<lparr> jobs := map ?f ?rs \<rparr>"
    by (auto simp: updateJobStatus_def split: if_splits)
  from select_next_Some [OF sel] have cand: "claim_candidate p ?rs r" by simp
  then have mem: "r \<in> set ?rs" and proj: "project_name r = p"
    by (simp_all add: claim_candidate_def)
  have inj: "inj_on job_id (set ?rs)"
    using rows_invD(1) [OF rinv] by (simp add: distinct_map)
  have same: "x = r" if "x \<in> set ?rs" "job_id x = job_id r" for x
    using inj that mem by (auto dest: inj_onD)
  have fid: "job_id (?f x) = job_id x" for x by (simp add: set_status_fields)
  have other: "?f x = x" if "x \<in> set ?rs" "x \<noteq> r" for x
    using that same by auto
  have free: False
    if "x \<in> set ?rs" "status x = ''running''" "project_name x = p" "session_id x = Some s"
       "session_id r = Some s" for x s
    using cand that by (auto simp: claim_candidate_def)
  have "rows_inv (last_rowid d) (map ?f ?rs)"
  proof (rule rows_invI)
    have "map job_id (map ?f ?rs) = map job_id ?rs" by (simp add: set_status_fields)
    then show "distinct (map job_id (map ?f ?rs))"
      using rows_invD(1) [OF rinv] by (simp del: map_map)
    show "0 < job_id x \<and> job_id x \<le> last_rowid d" if "x \<in> set (map ?f ?rs)" for x
    proof -
      from that obtain y where y: "y \<in> set ?rs" "x = ?f y" by auto
      with rows_invD(2) [OF rinv, of y] fid [of y] show ?thesis by simp
    qed
    show "started_at x \<noteq> None" if "x \<in> set (map ?f ?rs)" "status x = ''running''" for x
    proof -
      from that(1) obtain y where y: "y \<in> set ?rs" "x = ?f y" by auto
      show ?thesis
      proof (cases "y = r")
        case True
        with y show ?thesis by (simp add: set_status_times)
      next
        case False
        with other y have "x = y" by simp
        with y that(2) rows_invD(3) [OF rinv, of y] show ?thesis by simp
      qed
    qed
    show "session_exclusive (map ?f ?rs)"
    proof (rule session_exclusiveI)
      fix r1 r2 s
      assume a: "r1 \<in> set (map ?f ?rs)" "r2 \<in> set (map ?f ?rs)"
        and b: "status r1 = ''running''" "status r2 = ''running''"
          "project_name r1 = project_name r2"
          "session_id r1 = Some s" "session_id r2 = Some s"
      from a obtain y1 y2 where y: "y1 \<in> set ?rs" "r1 = ?f y1" "y2 \<in> set ?rs" "r2 = ?f y2"
        by auto
      show "r1 = r2"
      proof (cases "y1 = r")
        case True
        note y1 = this
        show ?thesis
        proof (cases "y2 = r")
          case True
          with y1 y show ?thesis by simp
        next
          case False
          with other y have "r2 = y2" by simp
          with y y1 b proj have "status y2 = ''running''" "project_name y2 = p"
            "session_id y2 = Some s" "session_id r = Some s"
            by (simp_all add: set_status_fields)
          with free [OF y(3)] show ?thesis by blast
        qed
      next
        case False
        with other y have r1: "r1 = y1" by simp
        show ?thesis
        proof (cases "y2 = r")
          case True
          with y r1 b proj have "status y1 = ''running''" "project_name y1 = p"
            "session_id y1 = Some s" "session_id r = Some s"
            by (simp_all add: set_status_fields)
          with free [OF y(1)] show ?thesis by blast
        next
          case False
          with other y have "r2 = y2" by simp
          with r1 y b show ?thesis
            by (intro session_exclusiveD [OF rows_invD(4) [OF rinv], of r1 r2 s]) simp_all
        qed
      qed
    qed
  qed
  then show ?thesis by (simp add: d' store_inv_def)
qed


lemma store_inv_store_step:
  assumes "store_step rt d d'" and "store_inv d"
  shows "store_inv d'"
  using assms
proof (induction rule: store_step.induct)
  case (insert_job now p sid cmd opts uid prio d i d')
  then show ?case by (auto intro: store_inv_addJob)
next
  case (finish_job st now i msg d d')
  then show ?case by (auto intro: store_inv_update_quiet)
next
  case (claim_job p d r now d')
  then show ?case by (auto intro: store_inv_claim)
next
  case (cleanup_jobs project d d')
  then show ?case by (auto intro: store_inv_cleanupOldJobs)
next
  case (toggle d b)
  then show ?case by (simp add: store_inv_def)
qed

lemma steps_job_failed:
  "(store_step rt)\<^sup>*\<^sup>* (db s) (db (fst (job_failed now p err s)))"
proof (cases "case map_of (projectWorkers s) p of None \<Rightarrow> None | Some w \<Rightarrow> currentJobId w")
  case None
  then show ?thesis by (simp add: job_failed_def)
next
  case (Some jobId)
  show ?thesis
  proof (cases "updateJobStatus now jobId ''failed'' (Some (message err)) (db s)")
    case (Inl e)
    with Some show ?thesis by (simp add: job_failed_def)
  next
    case (Inr d)
    have "store_step rt (db s) d"
      by (rule store_step.finish_job [OF _ Inr]) simp
    with Some Inr show ?thesis by (auto simp: job_failed_def)
  qed
qed

lemma steps_processProjectJobs:
  "(store_step rt)\<^sup>*\<^sup>* (db s) (db (fst (processProjectJobs rt now p s)))"
proof (cases "map_of (projectWorkers s) p")
  case None
  then show ?thesis by (simp add: processProjectJobs_def)
next
  case (Some w)
  show ?thesis
  proof (cases "isShuttingDown s")
    case True
    with Some show ?thesis by (simp add: processProjectJobs_def)
  next
    case False
    show ?thesis
    proof (cases "getNextJobForProject rt p (db s)")
      case (Inl e)
      with Some False steps_job_failed [of rt s now p e] show ?thesis
        by (simp add: processProjectJobs_def)
    next
      case (Inr jo)
      show ?thesis
      proof (cases jo)
        case None
        with Some False Inr show ?thesis by (simp add: processProjectJobs_def)
      next
        case (Some j)
        from getNextJobForProject_row [OF Inr [unfolded Some]] obtain r where
          r: "select_next p (jobs (db s)) = Some r" "parse_row rt r = Inr j" by blast
        have id: "job_id j = job_id r" using parse_row_fields(1) [OF r(2)] .
        show ?thesis
        proof (cases "updateJobStatus now (job_id j) ''running'' None (db s)")
          case (Inl e)
          with \<open>map_of (projectWorkers s) p = Some w\<close> False Inr Some
            steps_job_failed [of rt s now p e]
          show ?thesis by (simp add: processProjectJobs_def)
        next
          case (Inr d)
          have "store_step rt (db s) d"
            by (rule store_step.claim_job [OF r(1)]) (use Inr id in simp)
          with \<open>map_of (projectWorkers s) p = Some w\<close> False
            \<open>getNextJobForProject rt p (db s) = Inr jo\<close> Some Inr
          show ?thesis by (auto simp: processProjectJobs_def)
        qed
      qed
    qed
  qed
qed

lemma steps_resume:
  "(store_step rt)\<^sup>*\<^sup>* (db s) (db (fst (processProjectJobs_resume now p out s)))"
proof (cases "case map_of (projectWorkers s) p of None \<Rightarrow> None | Some w \<Rightarrow> currentPromise w")
  case None
  then show ?thesis by (simp add: processProjectJobs_resume_def)
next
  case (Some j)
  show ?thesis
  proof (cases out)
    case (Rejected err)
    with Some steps_job_failed [of rt s now p err] show ?thesis
      by (simp add: processProjectJobs_resume_def)
  next
    case Resolved
    show ?thesis
    proof (cases "updateJobStatus now (job_id j) ''completed'' None (db s)")
      case (Inl e)
      with Some Resolved steps_job_failed [of rt s now p e] show ?thesis
        by (simp add: processProjectJobs_resume_def)
    next
      case (Inr d)
      have "store_step rt (db s) d"
        by (rule store_step.finish_job [OF _ Inr]) simp
      with Some Resolved Inr show ?thesis by (auto simp: processProjectJobs_resume_def)
    qed
  qed
qed

lemma steps_startProjectWorker:
  "(store_step rt)\<^sup>*\<^sup>* (db s) (db (startProjectWorker rt now p s))"
proof (cases "map_of (projectWorkers s) p = None")
  case False
  then show ?thesis by (simp add: startProjectWorker_def)
next
  case True
  let ?s = "s\<lparr> projectWorkers :=
                 AList.update p
                   \<lparr> projectName = p, isRunning = False, currentJobId = None,
                     currentPromise = None \<rparr>
                   (projectWorkers s) \<rparr>"
  from steps_processProjectJobs [of rt ?s now p] True show ?thesis
    by (simp add: startProjectWorker_def)
qed

lemma steps_startJobPolling:
  "(store_step rt)\<^sup>*\<^sup>* (db s) (db (startJobPolling rt now s))"
proof -
  have "(store_step rt)\<^sup>*\<^sup>* (db s') (db (fold (\<lambda>p acc.
                       if map_of (projectWorkers acc) p = None
                          \<and> length (projectWorkers acc) < maxConcurrentProjects acc
                       then startProjectWorker rt now p acc else acc) ps s'))" for ps s'
  proof (induction ps arbitrary: s')
    case Nil
    then show ?case by simp
  next
    case (Cons a ps)
    let ?s1 = "if map_of (projectWorkers s') a = None
                  \<and> length (projectWorkers s') < maxConcurrentProjects s'
               then startProjectWorker rt now a s' else s'"
    have "(store_step rt)\<^sup>*\<^sup>* (db s') (db ?s1)"
      using steps_startProjectWorker [of rt s' now a] by simp
    from rtranclp_trans [OF this Cons.IH [of ?s1]] show ?case by simp
  qed
  then show ?thesis
    by (simp add: startJobPolling_def Let_def split: sum.splits)
qed

lemma steps_recover_loop:
  "(store_step rt)\<^sup>*\<^sup>* d (recover_loop clock js d)"
proof (induction js arbitrary: d)
  case Nil
  then show ?case by simp
next
  case (Cons j js)
  show ?case
  proof (cases "updateJobStatus (clock (job_id j)) (job_id j) ''failed''
                  (Some ''Job timeout - marked for recovery'') d")
    case (Inl e)
    then show ?thesis by simp
  next
    case (Inr d')
    have "store_step rt d d'"
      by (rule store_step.finish_job [OF _ Inr]) simp
    with Cons.IH [of d'] Inr show ?thesis by (auto intro: converse_rtranclp_into_rtranclp)
  qed
qed

lemma steps_recoverStuckJobs:
  "(store_step rt)\<^sup>*\<^sup>* (db s) (db (recoverStuckJobs rt now clock s))"
proof (cases "getActiveJobs rt (db s)")
  case (Inl e)
  then show ?thesis by (simp add: recoverStuckJobs_def)
next
  case (Inr active)
  from steps_recover_loop [of rt "db s" clock "filter (stuck now) active"] Inr
  show ?thesis by (simp add: recoverStuckJobs_def Let_def)
qed

lemma steps_cleanup_tick:
  "(store_step rt)\<^sup>*\<^sup>* (db s) (db (cleanup_tick s))"
proof (cases "cleanupOldJobs None (db s)")
  case (Inl e)
  then show ?thesis by (simp add: cleanup_tick_def)
next
  case (Inr d)
  from store_step.cleanup_jobs [OF Inr, of rt] Inr show ?thesis
    by (auto simp: cleanup_tick_def)
qed

lemma steps_addJob:
  assumes "addJob rt now p sid cmd opts uid prio s = Inr (i, s')"
  shows "(store_step rt)\<^sup>*\<^sup>* (db s) (db s')"
proof -
  from assms obtain d where d: "jobDb_addJob rt now p sid cmd opts uid prio (db s) = Inr (i, d)"
    and "db s' = d"
    by (auto simp: addJob_def Let_def split: sum.splits prod.splits if_splits)
  with store_step.insert_job [OF d] show ?thesis by auto
qed

lemma steps_step:
  assumes "step rt s s'"
  shows "(store_step rt)\<^sup>*\<^sup>* (db s) (db s')"
  using assms
proof (induction rule: step.induct)
  case (submit now project sessionId cmd opts userId prio s i s')
  then show ?case by (rule steps_addJob)
next
  case (immediate t s now)
  let ?s = "s\<lparr> immediates := remove1 t (immediates s) \<rparr>"
  show ?case
  proof (cases t)
    case (StartProjectWorker p)
    with steps_startProjectWorker [of rt ?s now p] show ?thesis
      by (simp add: run_task_def)
  next
    case (ProcessProjectJobs p)
    with steps_processProjectJobs [of rt ?s now p] show ?thesis
      by (simp add: run_task_def)
  qed
next
  case (poll s now)
  then show ?case by (rule steps_startJobPolling)
next
  case (recover s now clock)
  then show ?case by (rule steps_recoverStuckJobs)
next
  case (cleanup s)
  then show ?case by (rule steps_cleanup_tick)
next
  case (finish s project w j trace outs out now)
  from steps_resume [of rt "s\<lparr> emitted := emitted s @ outs \<rparr>" now project out]
  show ?case by simp
next
  case (shutdown s)
  then show ?case by (simp add: stop_def)
next
  case (storage s b)
  from store_step.toggle [of rt "db s" b] show ?case by auto
qed

lemma reachable_store_steps:
  assumes "reachable rt s"
  shows "(store_step rt)\<^sup>*\<^sup>* \<lparr> jobs = [], last_rowid = 0, is_open = True \<rparr> (db s)"
  using assms
proof (induction rule: reachable.induct)
  case reach_init
  show ?case by (simp add: init_def)
next
  case (reach_step s s')
  from rtranclp_trans [OF reach_step.IH steps_step [OF reach_step.hyps(2)]] show ?case .
qed

lemma store_steps_invariant:
  assumes "(store_step rt)\<^sup>*\<^sup>* d d'" and "P d"
    and "\<And>a b. store_step rt a b \<Longrightarrow> P a \<Longrightarrow> P b"
  shows "P d'"
  using assms(1,2)
  by (induction rule: rtranclp_induct) (auto intro: assms(3))

lemma store_inv_reachable:
  assumes "reachable rt s"
  shows "store_inv (db s)"
proof (rule store_steps_invariant [OF reachable_store_steps [OF assms]])
  show "store_inv \<lparr> jobs = [], last_rowid = 0, is_open = True \<rparr>"
    by (simp add: store_inv_def rows_inv_def session_exclusive_def)
  show "store_inv b" if "store_step rt a b" "store_inv a" for a b
    using that by (rule store_inv_store_step)
qed

lemma updateJobStatus_options:
  assumes "updateJobStatus now i st msg d = Inr d'"
  shows "map options (jobs d') = map options (jobs d)"
  using assms
  by (auto simp: updateJobStatus_def set_status_fields split: if_splits)

lemma cleanupOldJobs_subset:
  assumes "cleanupOldJobs project d = Inr d'"
  shows "set (jobs d') \<subseteq> set (jobs d)"
proof -
  have sub: "set xs \<subseteq> set ys" if "subseq xs ys" for xs ys :: "row list"
    using that by (auto elim: list_emb_set)
  from assms have "subseq (jobs d') (jobs d)"
    by (auto simp: cleanupOldJobs_def delete_old_subseq fold_delete_old_subseq
             split: if_splits option.splits)
  then show ?thesis by (rule sub)
qed

lemma options_store_step:
  assumes "store_step rt d d'"
    and "\<forall>r\<in>set (jobs d). Q (options r)"
    and "\<And>v t. JSON_stringify rt v = Some t \<Longrightarrow> Q t"
  shows "\<forall>r\<in>set (jobs d'). Q (options r)"
  using assms(1,2)
proof (induction rule: store_step.induct)
  case (insert_job now p sid cmd opts uid prio d i d')
  from jobDb_addJob_result [OF insert_job(1)] obtain t where
    "JSON_stringify rt opts = Some t"
    "d' = d\<lparr> jobs := jobs d @ [new_row now p sid cmd t uid prio i], last_rowid := i \<rparr>"
    by blast
  with insert_job(2) assms(3) show ?case by (auto simp: new_row_fields)
next
  case (finish_job st now i msg d d')
  from updateJobStatus_options [OF finish_job(2)]
  have "options ` set (jobs d') = options ` set (jobs d)" by (metis set_map)
  with finish_job(3) show ?case by (metis image_iff)
next
  case (claim_job p d r now d')
  from updateJobStatus_options [OF claim_job(2)]
  have "options ` set (jobs d') = options ` set (jobs d)" by (metis set_map)
  with claim_job(3) show ?case by (metis image_iff)
next
  case (cleanup_jobs project d d')
  with cleanupOldJobs_subset [OF cleanup_jobs(1)] show ?case by blast
next
  case (toggle d b)
  then show ?case by simp
qed

lemma reachable_options:
  assumes "reachable rt s" and "\<And>v t. JSON_stringify rt v = Some t \<Longrightarrow> Q t"
  shows "\<forall>r\<in>set (jobs (db s)). Q (options r)"
proof (rule store_steps_invariant [OF reachable_store_steps [OF assms(1)]])
  show "\<forall>r\<in>set (jobs \<lparr> jobs = [], last_rowid = 0, is_open = True \<rparr>). Q (options r)"
    by simp
  show "\<forall>r\<in>set (jobs b). Q (options r)"
    if "store_step rt a b" "\<forall>r\<in>set (jobs a). Q (options r)" for a b
    using that assms(2) by (rule options_store_step)
qed

text \<open>
  Every reachable store meets the conditions under which the selection order and the
  recovery sweep are stated above, as soon as the runtime parses what it prints; and
  every stored options text is what JSON.stringify printed for a submitted value.
\<close>

lemma reachable_store_wellformed:
  assumes "reachable rt s"
    and "\<And>v t. JSON_stringify rt v = Some t \<Longrightarrow> JSON_parse rt t \<noteq> None"
  shows "distinct (map job_id (jobs (db s)))"
    and "\<forall>r\<in>set (jobs (db s)). status r = ''running'' \<longrightarrow> started_at r \<noteq> None"
    and "\<forall>r\<in>set (jobs (db s)). JSON_parse rt (options r) \<noteq> None"
    and "\<forall>r\<in>set (jobs (db s)). \<exists>v. JSON_stringify rt v = Some (options r)"
proof -
  from store_inv_reachable [OF assms(1)]
  have inv: "rows_inv (last_rowid (db s)) (jobs (db s))" by (simp add: store_inv_def)
  show "distinct (map job_id (jobs (db s)))" by (rule rows_invD(1) [OF inv])
  show "\<forall>r\<in>set (jobs (db s)). status r = ''running'' \<longrightarrow> started_at r \<noteq> None"
    using rows_invD(3) [OF inv] by blast
  show "\<forall>r\<in>set (jobs (db s)). JSON_parse rt (options r) \<noteq> None"
    by (rule reachable_options [OF assms(1)]) (rule assms(2))
  show "\<forall>r\<in>set (jobs (db s)). \<exists>v. JSON_stringify rt v = Some (options r)"
    by (rule reachable_options [OF assms(1)]) blast
qed

text \<open>
  C2 (as amended). In every reachable state the ids of the stored jobs are distinct, and
  two running jobs of the same project that share a session are the same job.
\<close>

theorem session_exclusive_per_project:
  assumes "reachable rt s"
  shows "distinct (map job_id (jobs (db s)))
       \<and> (\<forall>r1\<in>set (jobs (db s)). \<forall>r2\<in>set (jobs (db s)).
            status r1 = ''running'' \<and> status r2 = ''running''
            \<and> project_name r1 = project_name r2
            \<and> session_id r1 \<noteq> None \<and> session_id r1 = session_id r2
            \<longrightarrow> r1 = r2)"
proof -
  from store_inv_reachable [OF assms]
  have inv: "rows_inv (last_rowid (db s)) (jobs (db s))" by (simp add: store_inv_def)
  from rows_invD(4) [OF inv] rows_invD(1) [OF inv] show ?thesis
    unfolding session_exclusive_def by blast
qed


lemma two_queued_eq:
  "two_queued p q =
     \<lparr> db = \<lparr> jobs = [sample_row 1 p (Some ''s'') ''pending'' 0 1,
                       sample_row 2 q (Some ''s'') ''pending'' 0 2],
              last_rowid = 2, is_open = True \<rparr>,
       projectWorkers = [], isShuttingDown = False, maxConcurrentProjects = 10,
       emitted = [JobQueued 1 p (Some ''s'') ''do...'', JobQueued 2 q (Some ''s'') ''do...''],
       immediates = [StartProjectWorker p, StartProjectWorker q] \<rparr>"
  by (simp add: two_queued_def addJob_def jobDb_addJob_def new_row_def init_def sample_rt_def
                sample_row_def emit_def setImmediate_def)

lemma reachable_two_queued: "reachable sample_rt (two_queued p q)"
proof -
  obtain s1 where s1: "addJob sample_rt 1 p (Some ''s'') ''do'' ''{}'' None 0 init = Inr (1, s1)"
    by (simp add: addJob_def jobDb_addJob_def new_row_def init_def sample_rt_def Let_def)
  obtain s2 where s2: "addJob sample_rt 2 q (Some ''s'') ''do'' ''{}'' None 0 s1 = Inr (2, s2)"
    using s1
    by (auto simp add: addJob_def jobDb_addJob_def new_row_def init_def sample_rt_def Let_def emit_def
                  setImmediate_def)
  have "reachable sample_rt s1"
    by (rule reach_step [OF reach_init step.submit [OF s1]])
  then have "reachable sample_rt s2"
    by (rule reach_step [OF _ step.submit [OF s2]])
  moreover have "two_queued p q = s2" using s1 s2 by (simp add: two_queued_def)
  ultimately show ?thesis by simp
qed

lemma reachable_two_started: "reachable sample_rt (two_started p q)"
  unfolding two_started_def
  by (rule reach_step [OF reachable_two_queued step.poll])

lemma two_started_rows:
  "map (\<lambda>r. (job_id r, project_name r, session_id r, status r))
       (jobs (db (two_started ''a'' ''b'')))
   = [(1, ''a'', Some ''s'', ''running''), (2, ''b'', Some ''s'', ''running'')]"
  by (simp add: two_started_def two_queued_eq startJobPolling_def getActiveJobs_def
                active_order_def parse_row_def set_order_def startProjectWorker_def
                processProjectJobs_def getNextJobForProject_def select_next_def
                runningSessions_def next_where_def next_order_def limit1_def
                updateJobStatus_def set_status_def emit_def sample_rt_def sample_row_def
                List.map_filter_def Let_def)

lemma two_started_rows_same:
  "map (\<lambda>r. (job_id r, project_name r, session_id r, status r))
       (jobs (db (two_started ''a'' ''a'')))
   = [(1, ''a'', Some ''s'', ''running''), (2, ''a'', Some ''s'', ''pending'')]"
  by (simp add: two_started_def two_queued_eq startJobPolling_def getActiveJobs_def
                active_order_def parse_row_def set_order_def startProjectWorker_def
                processProjectJobs_def getNextJobForProject_def select_next_def
                runningSessions_def next_where_def next_order_def limit1_def
                updateJobStatus_def set_status_def emit_def sample_rt_def sample_row_def
                List.map_filter_def Let_def)

text \<open>
  C2 as stated fails across projects: after two submissions and one poll, job 1 of
  project a and job 2 of project b are both running in session s.
\<close>

theorem session_shared_across_projects_counterexample:
  "reachable sample_rt (two_started ''a'' ''b'')
   \<and> map (\<lambda>r. (job_id r, project_name r, session_id r, status r))
          (jobs (db (two_started ''a'' ''b'')))
     = [(1, ''a'', Some ''s'', ''running''), (2, ''b'', Some ''s'', ''running'')]"
  using reachable_two_started two_started_rows by simp

text \<open>The same run with both jobs in one project: the second job stays pending.\<close>

theorem session_exclusive_per_project_witness:
  "reachable sample_rt (two_started ''a'' ''a'')
   \<and> map (\<lambda>r. (job_id r, project_name r, session_id r, status r))
          (jobs (db (two_started ''a'' ''a'')))
     = [(1, ''a'', Some ''s'', ''running''), (2, ''a'', Some ''s'', ''pending'')]"
  using session_exclusive_per_project [OF reachable_two_started, of "''a''" "''a''"]
    reachable_two_started two_started_rows_same by simp

section \<open>The options column\<close>


lemma parse_rows_options:
  assumes "parse_rows rt rs = Inr js"
  shows "\<forall>j\<in>set js. \<exists>r\<in>set rs. job_id r = job_id j
                         \<and> JSON_parse rt (options r) = Some (options j)"
  using assms
proof (induction rs arbitrary: js)
  case Nil
  then show ?case by simp
next
  case (Cons r rs)
  from Cons.prems obtain j js' where j: "parse_row rt r = Inr j"
    and js': "parse_rows rt rs = Inr js'" and js: "js = j # js'"
    by (auto split: sum.splits)
  from parse_row_fields(1,7) [OF j] Cons.IH [OF js'] js show ?case by auto
qed

lemma read_back_options:
  "getNextJobForProject rt p d = Inr (Some j) \<Longrightarrow>
     \<exists>r\<in>set (jobs d). job_id r = job_id j \<and> JSON_parse rt (options r) = Some (options j)"
  "getActiveJobs rt d = Inr js \<Longrightarrow>
     \<forall>j\<in>set js. \<exists>r\<in>set (jobs d). job_id r = job_id j
                      \<and> JSON_parse rt (options r) = Some (options j)"
  "getJobsForProject rt p n d = Inr js \<Longrightarrow>
     \<forall>j\<in>set js. \<exists>r\<in>set (jobs d). job_id r = job_id j
                      \<and> JSON_parse rt (options r) = Some (options j)"
proof -
  show "\<exists>r\<in>set (jobs d). job_id r = job_id j \<and> JSON_parse rt (options r) = Some (options j)"
    if "getNextJobForProject rt p d = Inr (Some j)"
  proof -
    from getNextJobForProject_row [OF that] obtain r where
      r: "select_next p (jobs d) = Some r" "parse_row rt r = Inr j" by blast
    from select_next_mem [OF r(1)] parse_row_fields(1,7) [OF r(2)] show ?thesis by auto
  qed
  show "\<forall>j\<in>set js. \<exists>r\<in>set (jobs d). job_id r = job_id j
                      \<and> JSON_parse rt (options r) = Some (options j)"
    if "getActiveJobs rt d = Inr js"
  proof -
    from that have "parse_rows rt (sort_key active_order
                (filter (\<lambda>r. status r = ''pending'' \<or> status r = ''running'') (jobs d))) = Inr js"
      by (simp add: getActiveJobs_def split: if_splits)
    from parse_rows_options [OF this] show ?thesis by auto
  qed
  show "\<forall>j\<in>set js. \<exists>r\<in>set (jobs d). job_id r = job_id j
                      \<and> JSON_parse rt (options r) = Some (options j)"
    if "getJobsForProject rt p n d = Inr js"
  proof -
    from that have "parse_rows rt (take n (rev (sort_key created_at
                        (filter (\<lambda>r. project_name r = p) (jobs d))))) = Inr js"
      by (simp add: getJobsForProject_def split: if_splits)
    moreover have "set (take n (rev (sort_key created_at
                        (filter (\<lambda>r. project_name r = p) (jobs d))))) \<subseteq> set (jobs d)"
      using set_take_subset [of n "rev (sort_key created_at
                        (filter (\<lambda>r. project_name r = p) (jobs d)))"] by auto
    ultimately show ?thesis using parse_rows_options by blast
  qed
qed

lemma updateJobStatus_origin:
  assumes "updateJobStatus now i st msg d = Inr d'"
  shows "last_rowid d' = last_rowid d"
    and "\<forall>r'\<in>set (jobs d'). \<exists>x\<in>set (jobs d). job_id x = job_id r' \<and> options x = options r'"
proof -
  let ?f = "\<lambda>r. if job_id r = i then set_status now st msg r else r"
  from assms have d': "d' = d\<lparr> jobs := map ?f (jobs d) \<rparr>"
    by (auto simp: updateJobStatus_def split: if_splits)
  then show "last_rowid d' = last_rowid d" by simp
  show "\<forall>r'\<in>set (jobs d'). \<exists>x\<in>set (jobs d). job_id x = job_id r' \<and> options x = options r'"
  proof
    fix r' assume "r' \<in> set (jobs d')"
    with d' obtain x where x: "x \<in> set (jobs d)" "r' = ?f x" by auto
    then have "job_id x = job_id r' \<and> options x = options r'"
      by (simp add: set_status_fields)
    with x(1) show "\<exists>x\<in>set (jobs d). job_id x = job_id r' \<and> options x = options r'" ..
  qed
qed

lemma store_step_origin:
  assumes "store_step rt d d'"
  shows "last_rowid d \<le> last_rowid d'
       \<and> (\<forall>r'\<in>set (jobs d').
             (\<exists>x\<in>set (jobs d). job_id x = job_id r' \<and> options x = options r')
             \<or> last_rowid d < job_id r')"
  using assms
proof (induction rule: store_step.induct)
  case (insert_job now p sid cmd opts uid prio d i d')
  from jobDb_addJob_result [OF insert_job] obtain t where
    "i = Suc (last_rowid d)"
    "d' = d\<lparr> jobs := jobs d @ [new_row now p sid cmd t uid prio i], last_rowid := i \<rparr>"
    by blast
  then show ?case by (auto simp: new_row_fields)
next
  case (finish_job st now i msg d d')
  from updateJobStatus_origin [OF finish_job(2)] show ?case by simp
next
  case (claim_job p d r now d')
  from updateJobStatus_origin [OF claim_job(2)] show ?case by simp
next
  case (cleanup_jobs project d d')
  from cleanupOldJobs_subset [OF cleanup_jobs] have "set (jobs d') \<subseteq> set (jobs d)" .
  moreover from cleanup_jobs have "last_rowid d' = last_rowid d"
    by (auto simp: cleanupOldJobs_def split: if_splits option.splits)
  ultimately show ?case by auto
next
  case (toggle d b)
  then show ?case by auto
qed

lemma store_steps_origin:
  assumes "(store_step rt)\<^sup>*\<^sup>* d d'"
  shows "last_rowid d \<le> last_rowid d'
       \<and> (\<forall>r'\<in>set (jobs d').
             (\<exists>x\<in>set (jobs d). job_id x = job_id r' \<and> options x = options r')
             \<or> last_rowid d < job_id r')"
  using assms
proof (induction rule: rtranclp_induct)
  case base
  show ?case by auto
next
  case (step y z)
  from store_step_origin [OF step.hyps(2)]
  have le: "last_rowid y \<le> last_rowid z"
    and org: "\<And>r'. r' \<in> set (jobs z) \<Longrightarrow>
               (\<exists>x\<in>set (jobs y). job_id x = job_id r' \<and> options x = options r')
               \<or> last_rowid y < job_id r'"
    by blast+
  from step.IH have le0: "last_rowid d \<le> last_rowid y"
    and org0: "\<And>x. x \<in> set (jobs y) \<Longrightarrow>
               (\<exists>u\<in>set (jobs d). job_id u = job_id x \<and> options u = options x)
               \<or> last_rowid d < job_id x"
    by blast+
  have "(\<exists>u\<in>set (jobs d). job_id u = job_id r' \<and> options u = options r')
        \<or> last_rowid d < job_id r'" if "r' \<in> set (jobs z)" for r'
  proof -
    from org [OF that] show ?thesis
    proof
      assume "\<exists>x\<in>set (jobs y). job_id x = job_id r' \<and> options x = options r'"
      then obtain x where x: "x \<in> set (jobs y)" "job_id x = job_id r'"
        "options x = options r'" by blast
      from org0 [OF x(1)] x(2,3) show ?thesis by auto
    next
      assume "last_rowid y < job_id r'"
      with le0 show ?thesis by simp
    qed
  qed
  then have "\<forall>r'\<in>set (jobs z).
             (\<exists>u\<in>set (jobs d). job_id u = job_id r' \<and> options u = options r')
             \<or> last_rowid d < job_id r'" by blast
  moreover from le le0 have "last_rowid d \<le> last_rowid z" by simp
  ultimately show ?case by (rule conjI [rotated])
qed

text \<open>
  What a read gives back for a submitted job, whatever the system did to the store in
  between: the value JSON.parse makes of the text JSON.stringify printed for the
  options submitted.
\<close>

lemma options_read_back:
  assumes inv: "store_inv d"
    and add: "jobDb_addJob rt now p sid cmd opts uid prio d = Inr (i, d1)"
    and run: "(store_step rt)\<^sup>*\<^sup>* d1 d2"
    and rd: "getNextJobForProject rt q d2 = Inr (Some j)" and i: "job_id j = i"
  shows "\<exists>t. JSON_stringify rt opts = Some t \<and> JSON_parse rt t = Some (options j)"
proof -
  from jobDb_addJob_result [OF add] obtain t where t: "JSON_stringify rt opts = Some t"
    and i': "i = Suc (last_rowid d)"
    and d1': "d1 = d\<lparr> jobs := jobs d @ [new_row now p sid cmd t uid prio i], last_rowid := i \<rparr>"
    by blast
  define x where "x = new_row now p sid cmd t uid prio i"
  have d1: "jobs d1 = jobs d @ [x]" "last_rowid d1 = i" "i = Suc (last_rowid d)"
    and x: "job_id x = i" "options x = t"
    using d1' i' by (simp_all add: x_def new_row_fields)
  from read_back_options(1) [OF rd] obtain r' where
    r': "r' \<in> set (jobs d2)" "job_id r' = job_id j"
      "JSON_parse rt (options r') = Some (options j)"
    by blast
  from store_steps_origin [OF run] r'(1)
  have "(\<exists>u\<in>set (jobs d1). job_id u = job_id r' \<and> options u = options r')
        \<or> last_rowid d1 < job_id r'"
    by blast
  with r'(2) i d1(2) obtain u where u: "u \<in> set (jobs d1)" "job_id u = i"
    "options u = options r'"
    by auto
  from inv have "\<forall>r\<in>set (jobs d). job_id r \<le> last_rowid d"
    by (simp add: store_inv_def rows_inv_def)
  with u(1,2) d1(1,3) have "u = x" by auto
  with u(3) x(2) r'(3) t show ?thesis by simp
qed

section \<open>The options of a job, written and read back\<close>









end
